theory Spec2Isabelle
  imports Complex_Main "HOL-Library.Char_ord" "HOL-Library.List_Lexorder"
begin

section \<open>Strings of the host language\<close>

text \<open>
  A string is a list of code units; the model keeps the code units below 256, so a
  \<^typ>\<open>char\<close> is one code unit.  The order on strings is the lexicographic order on code
  units, which is the order the default \<^verbatim>\<open>Array.prototype.sort\<close> uses on strings.
\<close>

definition newline :: char where
  "newline = CHR 0x0A"

text \<open>White space and line terminators below 256: what \<^verbatim>\<open>trim\<close> strips and \<^verbatim>\<open>\s\<close> matches.\<close>

definition is_space :: "char \<Rightarrow> bool" where
  "is_space c \<longleftrightarrow> c \<in> set [CHR 0x09, CHR 0x0A, CHR 0x0B, CHR 0x0C, CHR 0x0D, CHR 0x20, CHR 0xA0]"

definition is_digit :: "char \<Rightarrow> bool" where
  "is_digit c \<longleftrightarrow> c \<in> set ''0123456789''"

text \<open>\<^verbatim>\<open>.\<close> matches every code unit except the line terminators.\<close>

definition is_dot :: "char \<Rightarrow> bool" where
  "is_dot c \<longleftrightarrow> c \<noteq> CHR 0x0A \<and> c \<noteq> CHR 0x0D"

definition trimStart :: "string \<Rightarrow> string" where
  "trimStart s = dropWhile is_space s"

definition trimEnd :: "string \<Rightarrow> string" where
  "trimEnd s = rev (dropWhile is_space (rev s))"

definition trim :: "string \<Rightarrow> string" where
  "trim s = trimEnd (trimStart s)"

text \<open>\<^verbatim>\<open>Array.prototype.join\<close> on an array of strings.\<close>

fun join :: "string \<Rightarrow> string list \<Rightarrow> string" where
  "join sep [] = []"
| "join sep [x] = x"
| "join sep (x # y # ys) = x @ sep @ join sep (y # ys)"

text \<open>\<^verbatim>\<open>toLowerCase\<close> on code units below 256: A-Z, and the Latin-1 capitals except U+00D7.\<close>

definition lower_char :: "char \<Rightarrow> char" where
  "lower_char c =
     (let n = (of_char c :: nat)
      in if (65 \<le> n \<and> n \<le> 90) \<or> (192 \<le> n \<and> n \<le> 222 \<and> n \<noteq> 215)
         then char_of (n + 32) else c)"

definition toLowerCase :: "string \<Rightarrow> string" where
  "toLowerCase s = map lower_char s"

text \<open>The decimal digits of a natural number, as a template literal prints an integer counter.\<close>

definition digit_char :: "nat \<Rightarrow> char" where
  "digit_char d = ''0123456789'' ! (d mod 10)"

fun show_nat :: "nat \<Rightarrow> string" where
  "show_nat n = (if n < 10 then [digit_char n] else show_nat (n div 10) @ [digit_char (n mod 10)])"

declare show_nat.simps [simp del]

section \<open>Insertion-ordered maps and sets\<close>

text \<open>
  \<^verbatim>\<open>Map\<close> and \<^verbatim>\<open>Set\<close> iterate in insertion order.  A map is an association list
  in which \<^verbatim>\<open>set\<close> replaces the value of a present key in place and appends a new key;
  a set is a list to which \<^verbatim>\<open>add\<close> appends an absent element.
\<close>

definition map_has :: "('k \<times> 'v) list \<Rightarrow> 'k \<Rightarrow> bool" where
  "map_has m k \<longleftrightarrow> k \<in> fst ` set m"

fun map_set :: "('k \<times> 'v) list \<Rightarrow> 'k \<Rightarrow> 'v \<Rightarrow> ('k \<times> 'v) list" where
  "map_set [] k v = [(k, v)]"
| "map_set (p # ps) k v = (if fst p = k then (k, v) # ps else p # map_set ps k v)"

definition map_get :: "('k \<times> 'v) list \<Rightarrow> 'k \<Rightarrow> 'v option" where
  "map_get m k = map_of m k"

definition set_add :: "'a list \<Rightarrow> 'a \<Rightarrow> 'a list" where
  "set_add s x = (if x \<in> set s then s else s @ [x])"

section \<open>Data model\<close>

text \<open>\<^verbatim>\<open>src/types/index.ts\<close>.  An exception is a value carrying its message.\<close>

datatype error = Error string

text \<open>
  A retrieval hit (\<^verbatim>\<open>Record<string, any> & Metadata\<close>) with the properties the store
  holds.  \<^verbatim>\<open>pageNumber\<close> is optional because the code reads it as
  \<^verbatim>\<open>obj.pageNumber || []\<close>; \<^verbatim>\<open>_additional\<close> is set by the fallback listing only.
\<close>

record rag_object =
  obj_fileId :: string
  obj_question :: string
  obj_answer :: string
  obj_pageNumber :: "string list option"
  obj_additional :: "string option"

record Reference =
  fileId :: string
  pages :: "string list"

record RAGAgentInput =
  query :: string
  tenant :: "string option"
  topK :: "nat option"

record RAGAgentOutput =
  answer :: string
  references :: "Reference list"
  rawData :: "rag_object list"

section \<open>The retrieval worker: \<^verbatim>\<open>src/agents/rag-agent.ts\<close>\<close>

text \<open>
  The collaborators of \<^verbatim>\<open>queryRAG\<close>: the embedding model, the similarity search and
  the object listing of the store.  Each may throw.  A GraphQL response either has no
  \<^verbatim>\<open>data.Get\<close> object (reading the collection then throws a TypeError) or has one,
  in which the collection may be missing.
\<close>

datatype gql_response = NoData | Data "rag_object list option"

record weaviate_object =
  properties :: rag_object
  additional :: "string option"

record 'v rag_env =
  embedQuery :: "string \<Rightarrow> error + 'v"
  nearVectorSearch :: "'v \<Rightarrow> string \<Rightarrow> nat \<Rightarrow> error + gql_response"
  fetchObjects :: "string \<Rightarrow> nat \<Rightarrow> error + weaviate_object list option"

text \<open>The variables of the \<^verbatim>\<open>objects.forEach\<close> loop.\<close>

record loop_state =
  referencesMap :: "(string \<times> string list) list"
  combinedAnswer :: string
  fileIdToIndex :: "(string \<times> nat) list"
  fileCounter :: nat

definition loop_init :: loop_state where
  "loop_init = \<lparr>referencesMap = [], combinedAnswer = [], fileIdToIndex = [], fileCounter = 1\<rparr>"

definition obj_pages :: "rag_object \<Rightarrow> string list" where
  "obj_pages obj = (case obj_pageNumber obj of None \<Rightarrow> [] | Some ps \<Rightarrow> ps)"

text \<open>\<^verbatim>\<open>referencesMap.get(fileId)?.add(p)\<close>\<close>

definition add_page :: "string \<Rightarrow> (string \<times> string list) list \<Rightarrow> string \<Rightarrow> (string \<times> string list) list" where
  "add_page fid m p = (case map_get m fid of None \<Rightarrow> m | Some s \<Rightarrow> map_set m fid (set_add s p))"

text \<open>A template literal prints an absent value as \<^verbatim>\<open>undefined\<close>.\<close>

definition show_index :: "nat option \<Rightarrow> string" where
  "show_index i = (case i of None \<Rightarrow> ''undefined'' | Some n \<Rightarrow> show_nat n)"

definition forEach_body :: "rag_object \<Rightarrow> loop_state \<Rightarrow> loop_state" where
  "forEach_body obj st =
     (let fid = obj_fileId obj;
          st1 = (if \<not> map_has (fileIdToIndex st) fid
                 then st\<lparr>fileIdToIndex := map_set (fileIdToIndex st) fid (fileCounter st),
                         fileCounter := fileCounter st + 1\<rparr>
                 else st);
          fileIdx = map_get (fileIdToIndex st1) fid;
          ps = obj_pages obj;
          st2 = (if \<not> map_has (referencesMap st1) fid
                 then st1\<lparr>referencesMap := map_set (referencesMap st1) fid []\<rparr>
                 else st1);
          st3 = st2\<lparr>referencesMap := foldl (add_page fid) (referencesMap st2) ps\<rparr>
      in st3\<lparr>combinedAnswer := combinedAnswer st3 @ show_index fileIdx @ ''- Page '' @
                 join '', '' ps @ '': '' @ obj_answer obj @ [newline, newline]\<rparr>)"

definition run_loop :: "rag_object list \<Rightarrow> loop_state" where
  "run_loop objects = foldl (\<lambda>st obj. forEach_body obj st) loop_init objects"

definition make_reference :: "string \<times> string list \<Rightarrow> Reference" where
  "make_reference e = \<lparr>fileId = fst e, pages = sort (snd e)\<rparr>"

text \<open>Lines 66 to 106: what \<^verbatim>\<open>queryRAG\<close> returns for the hits found.\<close>

definition format_objects :: "rag_object list \<Rightarrow> RAGAgentOutput" where
  "format_objects objects =
     (if length objects = 0
      then \<lparr>answer = ''I couldn't find any relevant information in the documents.'',
            references = [], rawData = []\<rparr>
      else let st = run_loop objects
           in \<lparr>answer = trim (combinedAnswer st),
               references = map make_reference (referencesMap st),
               rawData = objects\<rparr>)"

text \<open>The fallback listing: each object's properties, with \<^verbatim>\<open>_additional\<close> added.\<close>

definition from_fetched :: "weaviate_object \<Rightarrow> rag_object" where
  "from_fetched obj = (properties obj)\<lparr>obj_additional := additional obj\<rparr>"

text \<open>Lines 31 to 62: the similarity search, and the listing when the search throws.\<close>

definition search_objects :: "'v rag_env \<Rightarrow> 'v \<Rightarrow> string \<Rightarrow> nat \<Rightarrow> error + gql_response" where
  "search_objects env vector t k =
     (case nearVectorSearch env vector t k of
        Inr results \<Rightarrow> Inr results
      | Inl e \<Rightarrow>
          (case fetchObjects env t k of
             Inl e' \<Rightarrow> Inl e'
           | Inr fetched \<Rightarrow>
               Inr (Data (Some (map from_fetched (case fetched of None \<Rightarrow> [] | Some os \<Rightarrow> os))))))"

text \<open>Line 64: \<^verbatim>\<open>results.data.Get[COLLECTION_NAME] || []\<close>\<close>

definition collection_objects :: "gql_response \<Rightarrow> error + rag_object list" where
  "collection_objects results =
     (case results of
        NoData \<Rightarrow> Inl (Error ''TypeError'')
      | Data None \<Rightarrow> Inr []
      | Data (Some os) \<Rightarrow> Inr os)"

text \<open>The \<^verbatim>\<open>try\<close> block of \<^verbatim>\<open>queryRAG\<close>; \<^verbatim>\<open>!tenant\<close> holds of an absent and of an empty tenant.\<close>

definition queryRAG_try :: "'v rag_env \<Rightarrow> RAGAgentInput \<Rightarrow> error + RAGAgentOutput" where
  "queryRAG_try env input =
     (let k = (case topK input of None \<Rightarrow> 3 | Some n \<Rightarrow> n)
      in case tenant input of
           None \<Rightarrow> Inl (Error ''Tenant is required for multi-tenant collection.'')
         | Some t \<Rightarrow>
             if t = [] then Inl (Error ''Tenant is required for multi-tenant collection.'')
             else (case embedQuery env (query input) of
                     Inl e \<Rightarrow> Inl e
                   | Inr vector \<Rightarrow>
                       (case search_objects env vector t k of
                          Inl e \<Rightarrow> Inl e
                        | Inr results \<Rightarrow>
                            (case collection_objects results of
                               Inl e \<Rightarrow> Inl e
                             | Inr objects \<Rightarrow> Inr (format_objects objects)))))"

definition rag_error_output :: RAGAgentOutput where
  "rag_error_output =
     \<lparr>answer = ''An error occurred while retrieving information.'', references = [], rawData = []\<rparr>"

text \<open>\<^verbatim>\<open>queryRAG\<close>: the \<^verbatim>\<open>try\<close> block and its \<^verbatim>\<open>catch\<close>.  \<open>Inl\<close> is a rejected promise.\<close>

definition queryRAG :: "'v rag_env \<Rightarrow> RAGAgentInput \<Rightarrow> error + RAGAgentOutput" where
  "queryRAG env input =
     (case queryRAG_try env input of
        Inl e \<Rightarrow> Inr rag_error_output
      | Inr out \<Rightarrow> Inr out)"

text \<open>
  The claims about the retrieval result are stated against these notions.  The distinct
  elements of a list in the order of their first occurrence:
\<close>

primrec first_seen :: "'a list \<Rightarrow> 'a list" where
  "first_seen [] = []"
| "first_seen (x # xs) = x # removeAll x (first_seen xs)"

text \<open>The position of the first occurrence of \<open>x\<close> in \<open>xs\<close>.\<close>

definition first_pos :: "'a \<Rightarrow> 'a list \<Rightarrow> nat" where
  "first_pos x xs = length (takeWhile (\<lambda>y. y \<noteq> x) xs)"

text \<open>
  The answer text as the specification words it: each distinct file identifier gets a
  label, counting from 1 in first-seen order; each hit contributes one passage; the
  trailing white space of the whole text is trimmed.
\<close>

definition label_of :: "string list \<Rightarrow> string \<Rightarrow> nat" where
  "label_of ids fid = Suc (first_pos fid (first_seen ids))"

definition passage :: "string list \<Rightarrow> rag_object \<Rightarrow> string" where
  "passage ids h = show_nat (label_of ids (obj_fileId h)) @ ''- Page '' @ join '', '' (obj_pages h) @
     '': '' @ obj_answer h @ [newline, newline]"

definition spec_answer :: "rag_object list \<Rightarrow> string" where
  "spec_answer hits = trimEnd (concat (map (passage (map obj_fileId hits)) hits))"

section \<open>Regular expressions\<close>

text \<open>
  The patterns of the router are regular expressions without flags.  \<open>matches r s c\<close>
  lists, in the priority order of a backtracking matcher (alternatives left to right,
  repetition greedy), the ways \<open>r\<close> matches a prefix of \<open>s\<close>: the rest of the input and
  the captures.  An iteration of a repetition that consumes nothing is rejected.
\<close>

datatype rx =
    Lit string
  | Cls "char \<Rightarrow> bool"
  | Seq rx rx
  | Alt rx rx
  | Star rx
  | Plus rx
  | Group nat rx

type_synonym captures = "nat \<rightharpoonup> string"

fun star_iter :: "(string \<Rightarrow> captures \<Rightarrow> (string \<times> captures) list) \<Rightarrow> nat \<Rightarrow> string \<Rightarrow> captures
    \<Rightarrow> (string \<times> captures) list" where
  "star_iter f 0 s c = [(s, c)]"
| "star_iter f (Suc n) s c =
     concat (map (\<lambda>(s', c'). if length s' < length s then star_iter f n s' c' else []) (f s c)) @ [(s, c)]"

primrec matches :: "rx \<Rightarrow> string \<Rightarrow> captures \<Rightarrow> (string \<times> captures) list" where
  "matches (Lit w) s c = (if take (length w) s = w then [(drop (length w) s, c)] else [])"
| "matches (Cls p) s c = (case s of [] \<Rightarrow> [] | x # xs \<Rightarrow> if p x then [(xs, c)] else [])"
| "matches (Seq a b) s c = concat (map (\<lambda>(s', c'). matches b s' c') (matches a s c))"
| "matches (Alt a b) s c = matches a s c @ matches b s c"
| "matches (Star a) s c = star_iter (matches a) (length s) s c"
| "matches (Plus a) s c =
     concat (map (\<lambda>(s', c'). star_iter (matches a) (length s') s' c') (matches a s c))"
| "matches (Group n a) s c =
     map (\<lambda>(s', c'). (s', c'(n \<mapsto> take (length s - length s') s))) (matches a s c)"

text \<open>
  \<^verbatim>\<open>RegExp.prototype.exec\<close> and \<^verbatim>\<open>String.prototype.match\<close> without the global flag: the
  first match at the leftmost position that has one, as the matched text and the captures.
\<close>

fun rx_exec :: "rx \<Rightarrow> string \<Rightarrow> (string \<times> captures) option" where
  "rx_exec r s =
     (case matches r s Map.empty of
        (s', c) # _ \<Rightarrow> Some (take (length s - length s') s, c)
      | [] \<Rightarrow> (case s of [] \<Rightarrow> None | _ # t \<Rightarrow> rx_exec r t))"

declare rx_exec.simps [simp del]

definition rx_test :: "rx \<Rightarrow> string \<Rightarrow> bool" where
  "rx_test r s \<longleftrightarrow> rx_exec r s \<noteq> None"

fun alts :: "rx list \<Rightarrow> rx" where
  "alts [] = Cls (\<lambda>c. False)"
| "alts [r] = r"
| "alts (r # rs) = Alt r (alts rs)"

fun seqs :: "rx list \<Rightarrow> rx" where
  "seqs [] = Lit []"
| "seqs [r] = r"
| "seqs (r # rs) = Seq r (seqs rs)"

section \<open>Numbers of the host language\<close>

text \<open>
  A number is a binary64 value.  \<open>Num m e\<close> is the finite value \<open>m * 2 ^ e\<close>, kept in
  the form binary64 gives it: \<open>\<bar>m\<bar> < 2 ^ 53\<close>, \<open>- 1074 \<le> e \<le> 971\<close>, and
  \<open>2 ^ 52 \<le> \<bar>m\<bar>\<close> unless \<open>e = - 1074\<close>; zero is \<open>Num 0 (- 1074)\<close>.  Negative zero is
  not represented: the operands of this program are parsed from digits, and no sum,
  difference, product or quotient of such operands is a negative zero.
\<close>

datatype jsnum = Num int int | PosInfinity | NegInfinity | NaN

function pow_int :: "int \<Rightarrow> int \<Rightarrow> int" where
  "pow_int b e = (if e \<le> 0 then 1 else b * pow_int b (e - 1))"
  by pat_completeness auto
termination
  by (relation "measure (\<lambda>(b, e). nat e)") auto

declare pow_int.simps [simp del]

text \<open>\<open>x * b ^ e\<close> for \<open>e \<ge> 0\<close>, and \<open>x\<close> for a negative \<open>e\<close>.\<close>

definition scale_up :: "int \<Rightarrow> int \<Rightarrow> int \<Rightarrow> int" where
  "scale_up b x e = x * pow_int b e"

text \<open>The number of digits of a positive integer in base \<open>b\<close>.\<close>

function digit_count :: "int \<Rightarrow> int \<Rightarrow> int" where
  "digit_count b n = (if n \<le> 0 \<or> b < 2 then 0 else 1 + digit_count b (n div b))"
  by pat_completeness auto
termination
proof (relation "measure (\<lambda>(b, n). nat n)")
  show "wf (measure (\<lambda>(b, n). nat n))" by simp
next
  fix b n :: int
  assume "\<not> (n \<le> 0 \<or> b < 2)"
  then have "0 < n" "1 < b" by auto
  then have "n div b < n" by (rule int_div_less_self)
  moreover have "0 \<le> n div b" using \<open>0 < n\<close> \<open>1 < b\<close> by (simp add: pos_imp_zdiv_nonneg_iff)
  ultimately show "((b, n div b), (b, n)) \<in> measure (\<lambda>(b, n). nat n)" by simp
qed

declare digit_count.simps [simp del]

text \<open>For \<open>p, q > 0\<close>: the integer \<open>e\<close> with \<open>b ^ e \<le> p / q < b ^ (e + 1)\<close>.\<close>

definition floor_log :: "int \<Rightarrow> int \<Rightarrow> int \<Rightarrow> int" where
  "floor_log b p q =
     (let e0 = digit_count b p - digit_count b q
      in if scale_up b q e0 \<le> scale_up b p (- e0) then e0 else e0 - 1)"

text \<open>
  The binary64 value nearest to \<open>p / q\<close> (\<open>p, q > 0\<close>, ties to even), as mantissa and
  exponent; \<open>None\<close> when the rounded value is beyond the largest finite one.
\<close>

definition round_half_even :: "int \<Rightarrow> int \<Rightarrow> int" where
  "round_half_even num den =
     (let d = num div den;
          r = num mod den
      in if 2 * r < den then d else if den < 2 * r then d + 1 else if even d then d else d + 1)"

text \<open>The exponent of the unit in the last place of \<open>p / q\<close>; below \<open>2 ^ (- 1022)\<close> it stays \<open>- 1074\<close>.\<close>

definition ulp_exponent :: "int \<Rightarrow> int \<Rightarrow> int" where
  "ulp_exponent p q = max (floor_log 2 p q) (- 1022) - 52"

definition round_pos :: "int \<Rightarrow> int \<Rightarrow> (int \<times> int) option" where
  "round_pos p q =
     (let sh = ulp_exponent p q;
          m = round_half_even (scale_up 2 p (- sh)) (scale_up 2 q sh)
      in if m = pow_int 2 53 then (if 971 < sh + 1 then None else Some (pow_int 2 52, sh + 1))
         else if 971 < sh then None
         else Some (m, sh))"

definition js_zero :: jsnum where
  "js_zero = Num 0 (- 1074)"

definition round_ratio :: "int \<Rightarrow> int \<Rightarrow> jsnum" where
  "round_ratio p q =
     (if p = 0 then js_zero
      else if 0 < p then (case round_pos p q of None \<Rightarrow> PosInfinity | Some (m, e) \<Rightarrow> Num m e)
      else (case round_pos (- p) q of None \<Rightarrow> NegInfinity | Some (m, e) \<Rightarrow> Num (- m) e))"

text \<open>The binary64 value nearest to \<open>n * 2 ^ e\<close>.\<close>

definition round_scaled :: "int \<Rightarrow> int \<Rightarrow> jsnum" where
  "round_scaled n e = round_ratio (scale_up 2 n e) (scale_up 2 1 (- e))"

definition digit_value :: "char \<Rightarrow> int" where
  "digit_value c = of_char c - 48"

definition digits_value :: "string \<Rightarrow> int" where
  "digits_value s = foldl (\<lambda>n c. 10 * n + digit_value c) 0 s"

text \<open>
  \<^verbatim>\<open>parseFloat\<close> on a text whose numeric prefix is a run of digits, which is what the
  captures of the arithmetic pattern are: the value of the digits, rounded.
\<close>

definition parseFloat :: "string \<Rightarrow> jsnum" where
  "parseFloat s =
     (let ds = takeWhile is_digit s
      in if ds = [] then NaN else round_ratio (digits_value ds) 1)"

fun js_neg :: "jsnum \<Rightarrow> jsnum" where
  "js_neg (Num m e) = Num (- m) e"
| "js_neg PosInfinity = NegInfinity"
| "js_neg NegInfinity = PosInfinity"
| "js_neg NaN = NaN"

fun js_negative :: "jsnum \<Rightarrow> bool" where
  "js_negative (Num m e) = (m < 0)"
| "js_negative NegInfinity = True"
| "js_negative x = False"

fun js_is_zero :: "jsnum \<Rightarrow> bool" where
  "js_is_zero (Num m e) = (m = 0)"
| "js_is_zero x = False"

definition signed_infinity :: "bool \<Rightarrow> jsnum" where
  "signed_infinity neg = (if neg then NegInfinity else PosInfinity)"

fun js_add :: "jsnum \<Rightarrow> jsnum \<Rightarrow> jsnum" where
  "js_add NaN y = NaN"
| "js_add x NaN = NaN"
| "js_add (Num m1 e1) (Num m2 e2) =
     (let e = min e1 e2 in round_scaled (scale_up 2 m1 (e1 - e) + scale_up 2 m2 (e2 - e)) e)"
| "js_add PosInfinity NegInfinity = NaN"
| "js_add NegInfinity PosInfinity = NaN"
| "js_add PosInfinity y = PosInfinity"
| "js_add NegInfinity y = NegInfinity"
| "js_add x PosInfinity = PosInfinity"
| "js_add x NegInfinity = NegInfinity"

definition js_sub :: "jsnum \<Rightarrow> jsnum \<Rightarrow> jsnum" where
  "js_sub x y = js_add x (js_neg y)"

fun js_mul :: "jsnum \<Rightarrow> jsnum \<Rightarrow> jsnum" where
  "js_mul NaN y = NaN"
| "js_mul x NaN = NaN"
| "js_mul (Num m1 e1) (Num m2 e2) = round_scaled (m1 * m2) (e1 + e2)"
| "js_mul x y = (if js_is_zero x \<or> js_is_zero y then NaN
                 else signed_infinity (js_negative x \<noteq> js_negative y))"

fun js_div :: "jsnum \<Rightarrow> jsnum \<Rightarrow> jsnum" where
  "js_div NaN y = NaN"
| "js_div x NaN = NaN"
| "js_div (Num m1 e1) (Num m2 e2) =
     (if m2 = 0 then (if m1 = 0 then NaN else signed_infinity (m1 < 0))
      else round_ratio (sgn m2 * scale_up 2 m1 (e1 - e2)) (scale_up 2 \<bar>m2\<bar> (e2 - e1)))"
| "js_div (Num m1 e1) y = js_zero"
| "js_div x (Num m2 e2) = signed_infinity (js_negative x \<noteq> (m2 < 0))"
| "js_div x y = NaN"

text \<open>Number::toString, radix 10.\<close>

function show_digits :: "int \<Rightarrow> string" where
  "show_digits n = (if n < 10 then [digit_char (nat n)] else show_digits (n div 10) @ [digit_char (nat (n mod 10))])"
  by pat_completeness auto
termination
  by (relation "measure nat") auto

declare show_digits.simps [simp del]

text \<open>
  The integers \<open>s\<close> next to \<open>v / 10 ^ j\<close> (\<open>v = p / q\<close>) for which \<open>s * 10 ^ j\<close> rounds to
  the binary64 value \<open>x\<close>: the closer one first, and the even one first when both are
  as close.
\<close>

definition candidates :: "jsnum \<Rightarrow> int \<Rightarrow> int \<Rightarrow> int \<Rightarrow> int list" where
  "candidates x p q j =
     (let num = scale_up 10 p (- j);
          den = scale_up 10 q j;
          lo = num div den;
          hi = lo + 1;
          ordered = (if 2 * num < (lo + hi) * den then [lo, hi]
                     else if (lo + hi) * den < 2 * num then [hi, lo]
                     else if even lo then [lo, hi] else [hi, lo])
      in filter (\<lambda>s. 0 < s \<and> round_ratio (scale_up 10 s j) (scale_up 10 1 (- j)) = x) ordered)"

text \<open>The fewest digits \<open>k\<close>, and the digits \<open>s\<close>, with \<open>s * 10 ^ (n - k)\<close> rounding to \<open>x\<close>; 17 digits always do.\<close>

fun shortest_digits :: "jsnum \<Rightarrow> int \<Rightarrow> int \<Rightarrow> int \<Rightarrow> int \<Rightarrow> nat \<Rightarrow> int \<times> int" where
  "shortest_digits x p q n k 0 = (scale_up 10 p (k - n) div scale_up 10 q (n - k), k)"
| "shortest_digits x p q n k (Suc fuel) =
     (let c = candidates x p q (n - k)
      in if c = [] then shortest_digits x p q n (k + 1) fuel else (hd c, k))"

definition show_exponent :: "int \<Rightarrow> string" where
  "show_exponent e = (if e < 0 then ''-'' else ''+'') @ show_digits \<bar>e\<bar>"

text \<open>Number::toString of the positive finite value \<open>m * 2 ^ e\<close>.\<close>

definition show_positive :: "int \<Rightarrow> int \<Rightarrow> string" where
  "show_positive m e =
     (let p = scale_up 2 m e;
          q = scale_up 2 1 (- e);
          n0 = floor_log 10 p q + 1;
          (s0, k) = shortest_digits (Num m e) p q n0 1 17;
          (s, n) = (if s0 = pow_int 10 k then (s0 div 10, n0 + 1) else (s0, n0));
          ds = show_digits s
      in if k \<le> n \<and> n \<le> 21 then ds @ replicate (nat (n - k)) CHR ''0''
         else if 0 < n \<and> n \<le> 21 then take (nat n) ds @ ''.'' @ drop (nat n) ds
         else if - 6 < n \<and> n \<le> 0 then ''0.'' @ replicate (nat (- n)) CHR ''0'' @ ds
         else if k = 1 then ds @ ''e'' @ show_exponent (n - 1)
         else take 1 ds @ ''.'' @ drop 1 ds @ ''e'' @ show_exponent (n - 1))"

fun number_toString :: "jsnum \<Rightarrow> string" where
  "number_toString NaN = ''NaN''"
| "number_toString PosInfinity = ''Infinity''"
| "number_toString NegInfinity = ''-Infinity''"
| "number_toString (Num m e) =
     (if m = 0 then ''0'' else if m < 0 then ''-'' @ show_positive (- m) e else show_positive m e)"

section \<open>The orchestrator: \<^verbatim>\<open>src/agents/delegating-agent.ts\<close>\<close>

record ChartJSToolInput =
  in_chartType :: string
  in_description :: string
  in_dataPoints :: "nat option"

text \<open>
  The Chart.js configuration that the tool builds.  The background of a dataset is a
  palette for a pie or a doughnut and one colour otherwise.
\<close>

datatype background = Palette "string list" | Colour string

record Dataset =
  dataset_label :: string
  dataset_data :: "int list"
  backgroundColor :: background
  borderColor :: string
  borderWidth :: int

record ChartConfig =
  config_type :: string
  config_labels :: "string list"
  datasets :: "Dataset list"
  responsive :: bool
  legend_position :: string
  title_display :: bool
  title_text :: string

text \<open>\<^verbatim>\<open>ChartJSToolOutput\<close>; the orchestrator does not look into the chart configuration.\<close>

record ChartJSToolOutput =
  out_type :: string
  chartConfig :: ChartConfig
  out_description :: string

subsection \<open>The chart tool: \<^verbatim>\<open>src/tools/chartjs-tool.ts\<close>\<close>

text \<open>\<^verbatim>\<open>String.prototype.includes\<close>\<close>

definition str_includes :: "string \<Rightarrow> string \<Rightarrow> bool" where
  "str_includes s sub \<longleftrightarrow> list_ex (\<lambda>i. take (length sub) (drop i s) = sub) [0..<Suc (length s)]"

text \<open>
  \<^verbatim>\<open>_call\<close>.  The mock data of the last branch are draws of
  \<^verbatim>\<open>Math.floor(Math.random() * 100)\<close>: \<open>random i mod 100\<close> is the \<open>i\<close>-th of them.
\<close>

definition mock_series :: "(nat \<Rightarrow> int) \<Rightarrow> string \<Rightarrow> nat \<Rightarrow> string list \<times> int list \<times> string" where
  "mock_series random description dataPoints =
     (let d = toLowerCase description
      in if str_includes d ''revenue'' \<or> str_includes d ''quarterly''
         then ([''Q1'', ''Q2'', ''Q3'', ''Q4''], [120000, 150000, 180000, 200000], ''Revenue ($)'')
         else if str_includes d ''growth'' \<or> str_includes d ''trend''
         then ([''Jan'', ''Feb'', ''Mar'', ''Apr'', ''May'', ''Jun''], [10, 25, 45, 30, 55, 78],
               ''Growth (%)'')
         else if str_includes d ''share'' \<or> str_includes d ''market''
         then ([''Product A'', ''Product B'', ''Product C'', ''Others''], [40, 30, 20, 10],
               ''Market Share (%)'')
         else (map (\<lambda>i. ''Label '' @ show_nat (i + 1)) [0..<dataPoints],
               map (\<lambda>i. random i mod 100) [0..<dataPoints], ''Value''))"

definition ChartJSTool_call :: "(nat \<Rightarrow> int) \<Rightarrow> ChartJSToolInput \<Rightarrow> ChartJSToolOutput" where
  "ChartJSTool_call random input =
     (let chartType = in_chartType input;
          description = in_description input;
          dataPoints = (case in_dataPoints input of None \<Rightarrow> 4 | Some n \<Rightarrow> n);
          series = mock_series random description dataPoints
      in \<lparr>out_type = chartType,
          chartConfig =
            \<lparr>config_type = chartType,
             config_labels = fst series,
             datasets =
               [\<lparr>dataset_label = snd (snd series),
                 dataset_data = fst (snd series),
                 backgroundColor =
                   (if chartType = ''pie'' \<or> chartType = ''doughnut''
                    then Palette [''#FF6384'', ''#36A2EB'', ''#FFCE56'', ''#4BC0C0'']
                    else Colour ''#36A2EB''),
                 borderColor = ''#36A2EB'',
                 borderWidth = 1\<rparr>],
             responsive = True,
             legend_position = ''top'',
             title_display = True,
             title_text = description\<rparr>,
          out_description = description\<rparr>)"

text \<open>
  \<^verbatim>\<open>chartTool.invoke(params)\<close> followed by \<^verbatim>\<open>JSON.parse\<close>, as the chart node calls them:
  \<^verbatim>\<open>invoke\<close> throws when the parameters do not fit the schema of the tool, whose chart
  type is one of four; otherwise it returns the text of the output of \<^verbatim>\<open>_call\<close>, and
  parsing that text gives the output back.
\<close>

definition chartTypes :: "string list" where
  "chartTypes = [''bar'', ''line'', ''pie'', ''doughnut'']"

definition ChartJSTool_invoke :: "(nat \<Rightarrow> int) \<Rightarrow> ChartJSToolInput \<Rightarrow> error + ChartJSToolOutput" where
  "ChartJSTool_invoke random input =
     (if in_chartType input \<in> set chartTypes then Inr (ChartJSTool_call random input)
      else Inl (Error ''Received tool input did not match expected schema''))"

subsection \<open>The state of the graph\<close>

text \<open>An entry of \<^verbatim>\<open>allData\<close>: a chart result or a list of references.\<close>

datatype payload = ChartData ChartJSToolOutput | ReferenceData "Reference list"

text \<open>\<^verbatim>\<open>GraphState\<close>, the state of \<^verbatim>\<open>AgentStateAnnotation\<close>.\<close>

record GraphState =
  userQuery :: string
  messages :: "string list"
  needsChart :: bool
  needsRAG :: bool
  state_tenant :: "string option"
  chartResult :: "ChartJSToolOutput option"
  ragResult :: "RAGAgentOutput option"
  finalAnswer :: string
  allData :: "payload list"

text \<open>
  What a node returns: the keys it sets.  The graph writes a returned key into the state;
  \<^verbatim>\<open>allData\<close> has a reducer, which appends the returned list.
\<close>

record Update =
  set_needsChart :: "bool option"
  set_needsRAG :: "bool option"
  set_chartResult :: "ChartJSToolOutput option"
  set_ragResult :: "RAGAgentOutput option"
  set_finalAnswer :: "string option"
  add_allData :: "payload list option"

definition empty_update :: Update where
  "empty_update = \<lparr>set_needsChart = None, set_needsRAG = None, set_chartResult = None,
     set_ragResult = None, set_finalAnswer = None, add_allData = None\<rparr>"

definition apply_update :: "GraphState \<Rightarrow> Update \<Rightarrow> GraphState" where
  "apply_update s u =
     s\<lparr>needsChart := (case set_needsChart u of None \<Rightarrow> needsChart s | Some b \<Rightarrow> b),
       needsRAG := (case set_needsRAG u of None \<Rightarrow> needsRAG s | Some b \<Rightarrow> b),
       chartResult := (case set_chartResult u of None \<Rightarrow> chartResult s | Some c \<Rightarrow> Some c),
       ragResult := (case set_ragResult u of None \<Rightarrow> ragResult s | Some r \<Rightarrow> Some r),
       finalAnswer := (case set_finalAnswer u of None \<Rightarrow> finalAnswer s | Some a \<Rightarrow> a),
       allData := (case add_allData u of None \<Rightarrow> allData s | Some ys \<Rightarrow> allData s @ ys)\<rparr>"

text \<open>
  The reply of the routing model after \<^verbatim>\<open>JSON.parse\<close>: a field is \<open>None\<close> when it is
  missing, null or, for the two flags, not a boolean.
\<close>

record llm_decision =
  decision_needsChart :: "bool option"
  decision_needsRAG :: "bool option"
  decision_directAnswer :: "string option"

text \<open>
  The collaborators of the graph.  \<open>routingLLM\<close> is the call of the routing model on the
  prompt for a query, with the clean-up and the parsing of its reply; \<open>chartTool\<close> is
  \<^verbatim>\<open>chartTool.invoke\<close> with the parsing of its result; \<open>sharedLLM\<close> answers a prompt.
  Each may throw.  The chart tool of the repository is \<open>ChartJSTool_invoke\<close>; the graph
  takes the tool as a collaborator, as the specification does its chart generator.
\<close>

record 'v env =
  rag_services :: "'v rag_env"
  routingLLM :: "string \<Rightarrow> error + llm_decision"
  chartTool :: "ChartJSToolInput \<Rightarrow> error + ChartJSToolOutput"
  sharedLLM :: "string \<Rightarrow> error + string"

subsection \<open>Node 1: the delegator\<close>

text \<open>Lines 302 to 306: the patterns of the keyword fallback.\<close>

definition chartKeywords :: rx where
  "chartKeywords = alts [Lit ''chart'', Lit ''graph'',
      seqs [Lit ''visuali'', Cls (\<lambda>c. c \<in> set ''sz''), Lit ''e''],
      Lit ''plot'', Lit ''bar'', Lit ''line'', Lit ''pie'', Lit ''doughnut'',
      seqs [Lit ''show'', Plus (Cls is_space), Lit ''me'', Plus (Cls is_space), Lit ''a'',
            Plus (Cls is_space), Group 1 (alts [Lit ''chart'', Lit ''graph''])]]"

definition is_operator :: "char \<Rightarrow> bool" where
  "is_operator c \<longleftrightarrow> c \<in> set ''+-*/''"

definition mathPattern :: rx where
  "mathPattern = seqs [Group 1 (Plus (Cls is_digit)), Star (Cls is_space), Cls is_operator,
      Star (Cls is_space), Group 2 (Plus (Cls is_digit))]"

definition ragKeywords :: rx where
  "ragKeywords = seqs [
      Group 1 (alts [
        seqs [Lit ''what'', Plus (Cls is_space),
              Group 2 (alts [Lit ''is'', Lit ''are'', Lit ''was'', Lit ''were''])],
        seqs [Lit ''how'', Plus (Cls is_space), Group 3 (alts [Lit ''do'', Lit ''does'', Lit ''did''])],
        seqs [Lit ''tell'', Plus (Cls is_space), Lit ''me'', Plus (Cls is_space), Lit ''about'']]),
      Plus (Cls is_space), Star (Cls is_dot),
      Group 4 (alts [Lit ''system'', Lit ''requirement'', Lit ''document'', Lit ''policy'',
        Lit ''authentication'', Lit ''safety'', Lit ''concern'', Lit ''driver'', Lit ''cost''])]"

definition documentKeywords :: rx where
  "documentKeywords = alts [
      seqs [Lit ''mentioned'', Plus (Cls is_space), Lit ''in''],
      seqs [Lit ''from'', Plus (Cls is_space), Lit ''the'', Plus (Cls is_space), Lit ''document''],
      seqs [Lit ''in'', Plus (Cls is_space), Lit ''the'', Plus (Cls is_space), Lit ''documentation'']]"

definition explainPattern :: rx where
  "explainPattern = alts [
      seqs [Lit ''and'', Plus (Cls is_space), Lit ''explain''],
      seqs [Lit ''explain'', Plus (Cls is_space), Lit ''the'']]"

text \<open>Line 318: \<^verbatim>\<open>mathMatch[0].match(/[\+\-\*\/]/)?.[0]\<close>\<close>

definition operator_of :: "string \<Rightarrow> string option" where
  "operator_of m0 = map_option fst (rx_exec (Cls is_operator) m0)"

text \<open>A capture that did not take part in the match reads as \<^verbatim>\<open>undefined\<close>.\<close>

definition capture :: "captures \<Rightarrow> nat \<Rightarrow> string" where
  "capture c i = (case c i of None \<Rightarrow> ''undefined'' | Some g \<Rightarrow> g)"

text \<open>Lines 316 to 326: the two operands, the operator and the \<^verbatim>\<open>switch\<close>.\<close>

definition math_result :: "string \<Rightarrow> captures \<Rightarrow> jsnum" where
  "math_result m0 c =
     (let num1 = parseFloat (capture c 1);
          num2 = parseFloat (capture c 2);
          operator = operator_of m0
      in if operator = Some ''+'' then js_add num1 num2
         else if operator = Some ''-'' then js_sub num1 num2
         else if operator = Some ''*'' then js_mul num1 num2
         else if operator = Some ''/'' then js_div num1 num2
         else js_zero)"

text \<open>Lines 313 to 329: the direct answer to a question of arithmetic.\<close>

fun direct_math_answer :: "(string \<times> captures) option \<Rightarrow> bool \<Rightarrow> bool \<Rightarrow> string" where
  "direct_math_answer None chart rag = []"
| "direct_math_answer (Some (m0, c)) chart rag =
     (if \<not> chart \<and> \<not> rag then ''The answer is '' @ number_toString (math_result m0 c) @ ''.'' else [])"

text \<open>The \<^verbatim>\<open>catch\<close> block of the delegator: routing by keywords, on the query in lower case.\<close>

definition keyword_fallback :: "string \<Rightarrow> Update" where
  "keyword_fallback q =
     (let chart = rx_test chartKeywords q;
          rag = ((rx_test ragKeywords q \<or> rx_test documentKeywords q \<or> rx_test explainPattern q)
                 \<and> \<not> rx_test mathPattern q);
          mathMatch = rx_exec mathPattern q;
          directAnswer = direct_math_answer mathMatch chart rag
      in empty_update\<lparr>set_needsChart := Some chart, set_needsRAG := Some rag,
           set_finalAnswer := Some directAnswer\<rparr>)"

text \<open>The \<^verbatim>\<open>try\<close> block of the delegator: the decision of the routing model, validated.\<close>

definition llm_routing :: "'v env \<Rightarrow> GraphState \<Rightarrow> error + Update" where
  "llm_routing env state =
     (case routingLLM env (userQuery state) of
        Inl e \<Rightarrow> Inl e
      | Inr decision \<Rightarrow>
          (case (decision_needsChart decision, decision_needsRAG decision) of
             (Some chart, Some rag) \<Rightarrow>
               Inr (empty_update\<lparr>set_needsChart := Some chart, set_needsRAG := Some rag,
                      set_finalAnswer := Some (case decision_directAnswer decision of
                                                 None \<Rightarrow> [] | Some a \<Rightarrow> a)\<rparr>)
           | _ \<Rightarrow> Inl (Error ''Invalid decision structure from LLM'')))"

definition delegatingNode :: "'v env \<Rightarrow> GraphState \<Rightarrow> Update" where
  "delegatingNode env state =
     (let q = toLowerCase (userQuery state)
      in case llm_routing env state of
           Inr u \<Rightarrow> u
         | Inl e \<Rightarrow> keyword_fallback q)"

subsection \<open>Node 2: the chart tool\<close>

definition chart_type_of :: "string \<Rightarrow> string" where
  "chart_type_of q =
     (if rx_test (Lit ''line'') q then ''line''
      else if rx_test (Lit ''pie'') q then ''pie''
      else if rx_test (Lit ''doughnut'') q then ''doughnut''
      else ''bar'')"

definition chartToolNode :: "'v env \<Rightarrow> GraphState \<Rightarrow> error + Update" where
  "chartToolNode env state =
     (if \<not> needsChart state then Inr empty_update
      else let q = toLowerCase (userQuery state);
               params = \<lparr>in_chartType = chart_type_of q, in_description = userQuery state,
                         in_dataPoints = None\<rparr>
           in case chartTool env params of
                Inl e \<Rightarrow> Inl e
              | Inr result \<Rightarrow>
                  Inr (empty_update\<lparr>set_chartResult := Some result,
                         add_allData := Some [ChartData result]\<rparr>))"

subsection \<open>Node 3: the retrieval agent\<close>

text \<open>\<^verbatim>\<open>state.tenant || "company_a"\<close>\<close>

definition tenant_or_default :: "string option \<Rightarrow> string" where
  "tenant_or_default t = (case t of None \<Rightarrow> ''company_a'' | Some x \<Rightarrow> if x = [] then ''company_a'' else x)"

definition rag_node_error_output :: RAGAgentOutput where
  "rag_node_error_output =
     \<lparr>answer = ''I encountered an error while searching for document information.'',
      references = [], rawData = []\<rparr>"

definition ragAgentNode :: "'v env \<Rightarrow> GraphState \<Rightarrow> error + Update" where
  "ragAgentNode env state =
     (if \<not> needsRAG state then Inr empty_update
      else case queryRAG (rag_services env)
                  \<lparr>query = userQuery state, tenant = Some (tenant_or_default (state_tenant state)),
                   topK = None\<rparr> of
             Inr result \<Rightarrow>
               Inr (empty_update\<lparr>set_ragResult := Some result,
                      add_allData := Some [ReferenceData (references result)]\<rparr>)
           | Inl e \<Rightarrow> Inr (empty_update\<lparr>set_ragResult := Some rag_node_error_output\<rparr>))"

subsection \<open>Node 4: the aggregator\<close>

definition quote :: char where
  "quote = CHR 0x22"

definition contextualPrompt :: "GraphState \<Rightarrow> string" where
  "contextualPrompt state =
     ''You are a helpful assistant. Based on the following information, answer the user's query: '' @
     [quote] @ userQuery state @ [quote, newline, newline] @
     (case ragResult state of
        None \<Rightarrow> []
      | Some r \<Rightarrow> ''Document Information:'' @ [newline] @ answer r @ [newline, newline]) @
     (case chartResult state of
        None \<Rightarrow> []
      | Some c \<Rightarrow> ''I have also generated a '' @ out_type c @ '' chart for '' @ [quote] @
                  out_description c @ [quote] @ ''.'' @ [newline, newline])"

definition aggregatorNode :: "'v env \<Rightarrow> GraphState \<Rightarrow> error + Update" where
  "aggregatorNode env state =
     (if finalAnswer state \<noteq> [] then Inr empty_update
      else case sharedLLM env (contextualPrompt state) of
             Inr text \<Rightarrow> Inr (empty_update\<lparr>set_finalAnswer := Some text\<rparr>)
           | Inl e \<Rightarrow>
               Inr (empty_update\<lparr>set_finalAnswer := Some
                 ''I'm sorry, I encountered an error while synthesizing your answer. However, I have gathered the requested data.''\<rparr>))"

subsection \<open>The graph\<close>

datatype node = Delegator | Chart | Rag | Aggregator

text \<open>The conditional edges after the delegator; the empty list is \<^verbatim>\<open>END\<close>.\<close>

definition route :: "GraphState \<Rightarrow> node list" where
  "route state =
     (if finalAnswer state \<noteq> [] then []
      else if needsChart state \<and> needsRAG state then [Chart, Rag]
      else if needsChart state then [Chart]
      else if needsRAG state then [Rag]
      else [Aggregator])"

fun run_node :: "'v env \<Rightarrow> GraphState \<Rightarrow> node \<Rightarrow> error + Update" where
  "run_node env state Delegator = Inr (delegatingNode env state)"
| "run_node env state Chart = chartToolNode env state"
| "run_node env state Rag = ragAgentNode env state"
| "run_node env state Aggregator = aggregatorNode env state"

text \<open>
  One step of the graph: the nodes of the step run on the same state; the step fails when
  a node throws, and otherwise the returned updates are written to the state.
\<close>

fun run_nodes :: "'v env \<Rightarrow> GraphState \<Rightarrow> node list \<Rightarrow> error + Update list" where
  "run_nodes env state [] = Inr []"
| "run_nodes env state (n # ns) =
     (case run_node env state n of
        Inl e \<Rightarrow> Inl e
      | Inr u \<Rightarrow> (case run_nodes env state ns of Inl e \<Rightarrow> Inl e | Inr us \<Rightarrow> Inr (u # us)))"

definition superstep :: "'v env \<Rightarrow> node list \<Rightarrow> GraphState \<Rightarrow> error + GraphState" where
  "superstep env ns state =
     (case run_nodes env state ns of
        Inl e \<Rightarrow> Inl e
      | Inr us \<Rightarrow> Inr (foldl apply_update state us))"

text \<open>
  A run of the compiled graph: the delegator, the nodes its conditional edges select, and
  the aggregator after a worker.  The result is the list of the nodes that ran and the
  final state, or the error of the node that threw.
\<close>

definition after_workers :: "'v env \<Rightarrow> node list \<Rightarrow> GraphState \<Rightarrow> error + node list \<times> GraphState" where
  "after_workers env visited state =
     (case superstep env [Aggregator] state of
        Inl e \<Rightarrow> Inl e
      | Inr s \<Rightarrow> Inr (visited @ [Aggregator], s))"

definition after_delegator :: "'v env \<Rightarrow> GraphState \<Rightarrow> error + node list \<times> GraphState" where
  "after_delegator env state =
     (let targets = route state
      in if targets = [] then Inr ([Delegator], state)
         else if targets = [Aggregator] then after_workers env [Delegator] state
         else case superstep env targets state of
                Inl e \<Rightarrow> Inl e
              | Inr s \<Rightarrow> after_workers env (Delegator # targets) s)"

definition run_graph :: "'v env \<Rightarrow> GraphState \<Rightarrow> error + node list \<times> GraphState" where
  "run_graph env state =
     (case superstep env [Delegator] state of
        Inl e \<Rightarrow> Inl e
      | Inr s \<Rightarrow> after_delegator env s)"

subsection \<open>\<^verbatim>\<open>runQuery\<close> of \<^verbatim>\<open>src/index.ts\<close>\<close>

record StreamingResponse =
  response_answer :: string
  response_data :: "payload list"

definition initialState :: "string \<Rightarrow> string \<Rightarrow> GraphState" where
  "initialState q t =
     \<lparr>userQuery = q, messages = [q], needsChart = False, needsRAG = False, state_tenant = Some t,
      chartResult = None, ragResult = None, finalAnswer = [], allData = []\<rparr>"

text \<open>The response of a run, or \<open>None\<close> when the graph threw and the error was logged.\<close>

definition runQuery :: "'v env \<Rightarrow> string \<Rightarrow> string option \<Rightarrow> StreamingResponse option" where
  "runQuery env q t =
     (case run_graph env (initialState q (case t of None \<Rightarrow> ''company_a'' | Some x \<Rightarrow> x)) of
        Inl e \<Rightarrow> None
      | Inr (visited, s) \<Rightarrow> Some \<lparr>response_answer = finalAnswer s, response_data = allData s\<rparr>)"

section \<open>Invariants of the \<^verbatim>\<open>forEach\<close> loop\<close>

text \<open>
  After the loop has seen the hits \<open>objs\<close>: the keys of both maps are the file
  identifiers in first-seen order, the index map holds the labels, the text is the
  concatenation of the passages, and the set of a file holds its pages in first-seen order.
\<close>

definition index_inv :: "rag_object list \<Rightarrow> loop_state \<Rightarrow> bool" where
  "index_inv objs st \<longleftrightarrow>
     (let ids = map obj_fileId objs
      in fileCounter st = Suc (length (first_seen ids)) \<and>
         map fst (fileIdToIndex st) = first_seen ids \<and>
         (\<forall>g \<in> set ids. map_get (fileIdToIndex st) g = Some (label_of ids g)) \<and>
         combinedAnswer st = concat (map (passage ids) objs))"

definition refs_inv :: "rag_object list \<Rightarrow> loop_state \<Rightarrow> bool" where
  "refs_inv objs st \<longleftrightarrow>
     map fst (referencesMap st) = first_seen (map obj_fileId objs) \<and>
     (\<forall>g \<in> set (map obj_fileId objs). map_get (referencesMap st) g =
        Some (first_seen (concat (map obj_pages (filter (\<lambda>h. obj_fileId h = g) objs)))))"

section \<open>The seed data of \<^verbatim>\<open>src/database/weaviate-setup.ts\<close>, for the examples\<close>

definition seed_object :: "string \<Rightarrow> string \<Rightarrow> string \<Rightarrow> string list \<Rightarrow> rag_object" where
  "seed_object f q a ps =
     \<lparr>obj_fileId = f, obj_question = q, obj_answer = a, obj_pageNumber = Some ps, obj_additional = None\<rparr>"

definition seedData :: "(string \<times> rag_object) list" where
  "seedData =
     [(''company_a'', seed_object ''tech_doc_001'' ''What are the system requirements for deployment?''
         ''The system requires Node.js 18+, 4GB RAM minimum, and Docker installed. PostgreSQL 14+ is needed for the database.''
         [''3'', ''4'']),
      (''company_a'', seed_object ''tech_doc_001'' ''How is authentication handled?''
         ''Authentication uses JWT tokens with OAuth2.0 integration. Tokens expire after 24 hours and refresh tokens are valid for 30 days.''
         [''12'', ''13'', ''14'']),
      (''company_b'', seed_object ''financial_report_q3'' ''What was the revenue for Q3 2024?''
         ''Q3 2024 revenue reached $4.2 million, representing a 23% increase year-over-year driven by enterprise subscription growth.''
         [''7'']),
      (''company_b'', seed_object ''financial_report_q3'' ''What are the main cost drivers?''
         ''Primary costs include cloud infrastructure (35%), personnel (45%), and marketing (20%). R&D investment increased by 15% this quarter.''
         [''15'', ''16'']),
      (''research_team'', seed_object ''ai_safety_paper_v2'' ''What are the key AI safety concerns identified?''
         ''The paper identifies three critical concerns: alignment issues with human values, potential for unintended behaviors at scale, and challenges in interpretability of large models.''
         [''2'', ''3'', ''8''])]"

text \<open>The objects of a tenant, in the order of the seed data.\<close>

definition tenant_objects :: "string \<Rightarrow> rag_object list" where
  "tenant_objects t = map snd (filter (\<lambda>e. fst e = t) seedData)"

text \<open>
  A store that holds the seed data: the search returns the first \<open>k\<close> objects of the
  tenant.  In \<open>seed_store_down\<close> the search throws and the listing answers; in
  \<open>seed_store_failing\<close> both throw; in \<open>seed_store_empty\<close> the search finds nothing.
\<close>

definition seed_store :: "unit rag_env" where
  "seed_store =
     \<lparr>embedQuery = (\<lambda>q. Inr ()),
      nearVectorSearch = (\<lambda>v t k. Inr (Data (Some (take k (tenant_objects t))))),
      fetchObjects = (\<lambda>t k. Inr (Some (map (\<lambda>obj. \<lparr>properties = obj, additional = None\<rparr>)
                                       (take k (tenant_objects t)))))\<rparr>"

definition seed_store_down :: "unit rag_env" where
  "seed_store_down = seed_store\<lparr>nearVectorSearch := (\<lambda>v t k. Inl (Error ''search unavailable''))\<rparr>"

definition seed_store_failing :: "unit rag_env" where
  "seed_store_failing = seed_store_down\<lparr>fetchObjects := (\<lambda>t k. Inl (Error ''store unavailable''))\<rparr>"

definition seed_store_empty :: "unit rag_env" where
  "seed_store_empty = seed_store\<lparr>nearVectorSearch := (\<lambda>v t k. Inr (Data (Some [])))\<rparr>"

text \<open>
  Collaborators for the examples.  In \<open>fallback_env\<close> the routing model is out of quota,
  so the delegator routes by keywords; the chart tool is the one of the repository, with
  the draws \<open>draws\<close>, and the shared model answers.  In \<open>chart_failing_env\<close> the chart tool throws, in \<open>rag_failing_env\<close>
  the store is down, and in \<open>direct_env\<close> the routing model gives a direct answer.
\<close>

definition draws :: "nat \<Rightarrow> int" where
  "draws i = 37 * int i + 11"

definition fallback_env :: "unit env" where
  "fallback_env =
     \<lparr>rag_services = seed_store,
      routingLLM = (\<lambda>q. Inl (Error ''quota exceeded'')),
      chartTool = ChartJSTool_invoke draws,
      sharedLLM = (\<lambda>p. Inr ''Here is what I found.'')\<rparr>"

definition chart_failing_env :: "unit env" where
  "chart_failing_env = fallback_env\<lparr>chartTool := (\<lambda>p. Inl (Error ''chart generator failed''))\<rparr>"

definition rag_failing_env :: "unit env" where
  "rag_failing_env = fallback_env\<lparr>rag_services := seed_store_failing\<rparr>"

definition direct_env :: "unit env" where
  "direct_env = fallback_env\<lparr>routingLLM := (\<lambda>q. Inr \<lparr>decision_needsChart = Some True,
     decision_needsRAG = Some True, decision_directAnswer = Some ''Paris''\<rparr>)\<rparr>"

definition both_query :: string where
  "both_query = ''Show me a chart of Q3 revenue and explain the growth drivers''"

section \<open>The arithmetic of the keyword fallback, as specified\<close>

text \<open>The operator of a question of arithmetic, applied to its two numbers.\<close>

definition arith :: "char \<Rightarrow> jsnum \<Rightarrow> jsnum \<Rightarrow> jsnum" where
  "arith op x y =
     (if op = CHR ''+'' then js_add x y
      else if op = CHR ''-'' then js_sub x y
      else if op = CHR ''*'' then js_mul x y
      else js_div x y)"

section \<open>Properties of the retrieval worker\<close>

lemma set_first_seen [simp]: "set (first_seen xs) = set xs"
  by (induction xs) auto

lemma distinct_first_seen [simp]: "distinct (first_seen xs)"
  by (induction xs) (auto simp: distinct_removeAll)

lemma first_seen_snoc:
  "first_seen (xs @ [x]) = (if x \<in> set xs then first_seen xs else first_seen xs @ [x])"
  by (induction xs) auto

lemma first_seen_append_foldl:
  "first_seen (xs @ ys) = foldl set_add (first_seen xs) ys"
proof (induction ys rule: rev_induct)
  case Nil
  show ?case by simp
next
  case (snoc y ys)
  have "first_seen (xs @ ys @ [y]) = first_seen ((xs @ ys) @ [y])" by simp
  also have "\<dots> = set_add (first_seen (xs @ ys)) y"
    unfolding first_seen_snoc by (simp add: set_add_def)
  finally show ?case using snoc by simp
qed

lemma map_has_get: "map_has m k \<longleftrightarrow> map_get m k \<noteq> None"
  by (simp add: map_has_def map_get_def map_of_eq_None_iff)

lemma map_get_set: "map_get (map_set m k v) k' = (if k' = k then Some v else map_get m k')"
  by (induction m) (auto simp: map_get_def)

lemma map_fst_set:
  "map fst (map_set m k v) = (if map_has m k then map fst m else map fst m @ [k])"
  by (induction m) (auto simp: map_has_def)

lemma map_set_same: "map_get m k = Some v \<Longrightarrow> map_set m k v = m"
  by (induction m) (auto simp: map_get_def split: if_splits)

lemma foldl_add_page:
  "map_get m f = Some s \<Longrightarrow> foldl (add_page f) m ps = map_set m f (foldl set_add s ps)"
proof (induction ps arbitrary: m s)
  case Nil
  then show ?case by (simp add: map_set_same)
next
  case (Cons p ps)
  have g: "map_get (map_set m f (set_add s p)) f = Some (set_add s p)"
    by (simp add: map_get_set)
  have "map_set (map_set m f (set_add s p)) f v = map_set m f v" for v
    by (induction m) auto
  with Cons.IH [OF g] Cons.prems show ?case
    by (simp add: add_page_def)
qed

lemma first_pos_append: "x \<in> set xs \<Longrightarrow> first_pos x (xs @ ys) = first_pos x xs"
  by (simp add: first_pos_def)

lemma first_pos_self_snoc: "x \<notin> set xs \<Longrightarrow> first_pos x (xs @ [x]) = length xs"
  by (induction xs) (auto simp: first_pos_def)

lemma label_of_snoc_old:
  "g \<in> set ids \<Longrightarrow> label_of (ids @ [f]) g = label_of ids g"
  by (simp add: label_of_def first_seen_snoc first_pos_append)

lemma label_of_snoc_new:
  "f \<notin> set ids \<Longrightarrow> label_of (ids @ [f]) f = Suc (length (first_seen ids))"
  by (simp add: label_of_def first_seen_snoc first_pos_self_snoc)

lemma passage_snoc_old:
  "obj_fileId h \<in> set ids \<Longrightarrow> passage (ids @ [f]) h = passage ids h"
  by (simp add: passage_def label_of_snoc_old)

lemma forEach_body_fileIdToIndex:
  "fileIdToIndex (forEach_body obj st) =
     (if map_has (fileIdToIndex st) (obj_fileId obj) then fileIdToIndex st
      else map_set (fileIdToIndex st) (obj_fileId obj) (fileCounter st))"
  by (simp add: forEach_body_def Let_def)

lemma forEach_body_fileCounter:
  "fileCounter (forEach_body obj st) =
     (if map_has (fileIdToIndex st) (obj_fileId obj) then fileCounter st else Suc (fileCounter st))"
  by (simp add: forEach_body_def Let_def)

lemma forEach_body_combinedAnswer:
  "combinedAnswer (forEach_body obj st) =
     combinedAnswer st @ show_index (map_get (fileIdToIndex (forEach_body obj st)) (obj_fileId obj)) @
     ''- Page '' @ join '', '' (obj_pages obj) @ '': '' @ obj_answer obj @ [newline, newline]"
  by (simp add: forEach_body_def Let_def)

lemma forEach_body_referencesMap:
  "referencesMap (forEach_body obj st) =
     foldl (add_page (obj_fileId obj))
       (if map_has (referencesMap st) (obj_fileId obj) then referencesMap st
        else map_set (referencesMap st) (obj_fileId obj) [])
       (obj_pages obj)"
  by (simp add: forEach_body_def Let_def)

lemma forEach_body_index:
  assumes "index_inv objs st"
  shows "index_inv (objs @ [obj]) (forEach_body obj st)"
proof -
  define ids where "ids = map obj_fileId objs"
  define f where "f = obj_fileId obj"
  define st' where "st' = forEach_body obj st"
  have inv: "fileCounter st = Suc (length (first_seen ids))"
    "map fst (fileIdToIndex st) = first_seen ids"
    "\<And>g. g \<in> set ids \<Longrightarrow> map_get (fileIdToIndex st) g = Some (label_of ids g)"
    "combinedAnswer st = concat (map (passage ids) objs)"
    using assms by (auto simp: index_inv_def ids_def Let_def)
  have has: "map_has (fileIdToIndex st) f \<longleftrightarrow> f \<in> set ids"
    using inv(2) by (metis map_has_def set_first_seen set_map)
  have old: "concat (map (passage (ids @ [f])) objs) = concat (map (passage ids) objs)"
    by (rule arg_cong [where f = concat], rule map_cong) (auto simp: passage_snoc_old ids_def)
  have counter: "fileCounter st' = Suc (length (first_seen (ids @ [f])))"
    using inv(1) has by (simp add: st'_def forEach_body_fileCounter f_def [symmetric] first_seen_snoc)
  have keys: "map fst (fileIdToIndex st') = first_seen (ids @ [f])"
    using inv(2) has
    by (simp add: st'_def forEach_body_fileIdToIndex f_def [symmetric] first_seen_snoc map_fst_set)
  have get: "map_get (fileIdToIndex st') g = Some (label_of (ids @ [f]) g)" if "g \<in> set (ids @ [f])" for g
  proof (cases "f \<in> set ids")
    case True
    with that have "g \<in> set ids" by auto
    with True has inv(3) show ?thesis
      by (simp add: st'_def forEach_body_fileIdToIndex f_def [symmetric] label_of_snoc_old)
  next
    case False
    show ?thesis
    proof (cases "g = f")
      case True
      with False has inv(1) show ?thesis
        by (simp add: st'_def forEach_body_fileIdToIndex f_def [symmetric] label_of_snoc_new map_get_set)
    next
      case g: False
      with that have "g \<in> set ids" by auto
      with False g has inv(3) show ?thesis
        by (simp add: st'_def forEach_body_fileIdToIndex f_def [symmetric] label_of_snoc_old map_get_set)
    qed
  qed
  have "combinedAnswer st' = concat (map (passage ids) objs) @ passage (ids @ [f]) obj"
    using get [of f] inv(4)
    by (simp add: st'_def [symmetric] forEach_body_combinedAnswer [of obj st, folded st'_def]
        f_def [symmetric] passage_def show_index_def)
  then have answer: "combinedAnswer st' = concat (map (passage (ids @ [f])) (objs @ [obj]))"
    using old by simp
  show ?thesis
    using counter keys get answer
    by (simp add: index_inv_def Let_def st'_def ids_def f_def)
qed

lemma forEach_body_refs:
  assumes "refs_inv objs st"
  shows "refs_inv (objs @ [obj]) (forEach_body obj st)"
proof -
  define ids where "ids = map obj_fileId objs"
  define f where "f = obj_fileId obj"
  define rm where "rm = (if map_has (referencesMap st) f then referencesMap st
        else map_set (referencesMap st) f [])"
  define old where "old = concat (map obj_pages (filter (\<lambda>h. obj_fileId h = f) objs))"
  have inv: "map fst (referencesMap st) = first_seen ids"
    "\<And>g. g \<in> set ids \<Longrightarrow> map_get (referencesMap st) g =
        Some (first_seen (concat (map obj_pages (filter (\<lambda>h. obj_fileId h = g) objs))))"
    using assms by (auto simp: refs_inv_def ids_def)
  have has: "map_has (referencesMap st) f \<longleftrightarrow> f \<in> set ids"
    using inv(1) by (metis map_has_def set_first_seen set_map)
  have "filter (\<lambda>h. obj_fileId h = f) objs = []" if "f \<notin> set ids"
    using that by (auto simp: ids_def filter_empty_conv)
  then have old_nil: "old = []" if "f \<notin> set ids"
    using that by (simp add: old_def)
  have rm_keys: "map fst rm = first_seen (ids @ [f])"
    using inv(1) has by (simp add: rm_def first_seen_snoc map_fst_set)
  have rm_f: "map_get rm f = Some (first_seen old)"
  proof (cases "f \<in> set ids")
    case True
    with inv(2) [of f] has show ?thesis by (simp add: rm_def old_def)
  next
    case False
    with has old_nil show ?thesis by (simp add: rm_def map_get_set)
  qed
  have rm_g: "map_get rm g = map_get (referencesMap st) g" if "g \<noteq> f" for g
    using that by (simp add: rm_def map_get_set)
  have new: "referencesMap (forEach_body obj st) = map_set rm f (first_seen (old @ obj_pages obj))"
    unfolding forEach_body_referencesMap f_def [symmetric] rm_def [symmetric]
    by (simp add: foldl_add_page [OF rm_f] first_seen_append_foldl)
  have has_rm: "map_has rm f"
    using rm_f by (simp add: map_has_get)
  have keys: "map fst (referencesMap (forEach_body obj st)) = first_seen (ids @ [f])"
    using rm_keys has_rm by (simp add: new map_fst_set)
  have get: "map_get (referencesMap (forEach_body obj st)) g =
        Some (first_seen (concat (map obj_pages (filter (\<lambda>h. obj_fileId h = g) (objs @ [obj])))))"
    if "g \<in> set (ids @ [f])" for g
  proof (cases "g = f")
    case True
    then show ?thesis by (simp add: new map_get_set old_def f_def)
  next
    case False
    with that have "g \<in> set ids" by auto
    with False inv(2) [of g] rm_g [of g] show ?thesis
      by (simp add: new map_get_set f_def)
  qed
  show ?thesis
    using keys get by (simp add: refs_inv_def ids_def f_def)
qed

lemma run_loop_snoc: "run_loop (objs @ [obj]) = forEach_body obj (run_loop objs)"
  by (simp add: run_loop_def)

lemma run_loop_index_inv: "index_inv objs (run_loop objs)"
proof (induction objs rule: rev_induct)
  case Nil
  show ?case by (simp add: index_inv_def run_loop_def loop_init_def)
next
  case (snoc obj objs)
  then show ?case by (simp add: run_loop_snoc forEach_body_index)
qed

lemma run_loop_refs_inv: "refs_inv objs (run_loop objs)"
proof (induction objs rule: rev_induct)
  case Nil
  show ?case by (simp add: refs_inv_def run_loop_def loop_init_def)
next
  case (snoc obj objs)
  then show ?case by (simp add: run_loop_snoc forEach_body_refs)
qed

lemma digit_char_cases:
  "d < 10 \<Longrightarrow> digit_char d \<in> set ''0123456789''"
proof -
  assume "d < 10"
  then have "d \<in> {0, 1, 2, 3, 4, 5, 6, 7, 8, 9}" by auto
  then show ?thesis by (auto simp: digit_char_def)
qed

lemma digit_not_space: "is_digit c \<Longrightarrow> \<not> is_space c"
  by (auto simp: is_digit_def is_space_def)

lemma show_nat_digits: "show_nat n \<noteq> [] \<and> (\<forall>c \<in> set (show_nat n). is_digit c)"
proof (induction n rule: show_nat.induct)
  case (1 n)
  show ?case
  proof (cases "n < 10")
    case True
    then show ?thesis
      using digit_char_cases [of n] by (simp add: show_nat.simps [of n] is_digit_def)
  next
    case False
    have "n mod 10 < 10" by simp
    from digit_char_cases [OF this] 1 False show ?thesis
      by (auto simp: show_nat.simps [of n] is_digit_def)
  qed
qed

lemma trimStart_id: "s \<noteq> [] \<Longrightarrow> \<not> is_space (hd s) \<Longrightarrow> trimStart s = s"
  by (cases s) (auto simp: trimStart_def)

lemma passage_hd: "passage ids h \<noteq> [] \<and> \<not> is_space (hd (passage ids h))"
proof -
  obtain c cs where "show_nat (label_of ids (obj_fileId h)) = c # cs" "is_digit c"
    using show_nat_digits [of "label_of ids (obj_fileId h)"]
    by (cases "show_nat (label_of ids (obj_fileId h))") auto
  then show ?thesis by (simp add: passage_def digit_not_space)
qed

lemma first_pos_Cons: "first_pos a (x # xs) = (if a = x then 0 else Suc (first_pos a xs))"
  by (auto simp: first_pos_def)

lemma sorted_first_seen:
  "sorted_wrt (\<lambda>a b. first_pos a ids < first_pos b ids) (first_seen ids)"
proof (induction ids)
  case Nil
  show ?case by simp
next
  case (Cons x xs)
  have "sorted_wrt (\<lambda>a b. first_pos a xs < first_pos b xs) (removeAll x (first_seen xs))"
    using Cons by (simp add: removeAll_filter_not_eq sorted_wrt_filter)
  then have "sorted_wrt (\<lambda>a b. first_pos a (x # xs) < first_pos b (x # xs)) (removeAll x (first_seen xs))"
    by (rule sorted_wrt_mono_rel [rotated]) (auto simp: first_pos_Cons)
  then show ?case by (auto simp: first_pos_Cons)
qed

lemma references_fileIds:
  "map fileId (references (format_objects hits)) = first_seen (map obj_fileId hits)"
proof (cases hits)
  case Nil
  then show ?thesis by (simp add: format_objects_def)
next
  case (Cons h hs)
  have "map fileId (map make_reference m) = map fst m" for m :: "(string \<times> string list) list"
    by (simp add: make_reference_def comp_def)
  with run_loop_refs_inv [of hits] Cons show ?thesis
    by (simp add: format_objects_def Let_def refs_inv_def del: map_map)
qed

lemma references_pages:
  assumes "r \<in> set (references (format_objects hits))"
  shows "pages r = sorted_list_of_set (\<Union>h \<in> {h \<in> set hits. obj_fileId h = fileId r}. set (obj_pages h))"
proof (cases hits)
  case Nil
  with assms show ?thesis by (simp add: format_objects_def)
next
  case (Cons h hs)
  define m where "m = referencesMap (run_loop hits)"
  have keys: "map fst m = first_seen (map obj_fileId hits)"
    using run_loop_refs_inv [of hits] by (simp add: refs_inv_def m_def)
  from assms Cons obtain f v where fv: "(f, v) \<in> set m" "r = make_reference (f, v)"
    by (auto simp: format_objects_def Let_def m_def)
  have "distinct (map fst m)" by (simp add: keys)
  with fv have get: "map_get m f = Some v" by (simp add: map_get_def)
  have "f \<in> set (map fst m)" using fv by force
  then have "f \<in> set (map obj_fileId hits)" by (simp add: keys)
  with run_loop_refs_inv [of hits] get
  have v: "v = first_seen (concat (map obj_pages (filter (\<lambda>h. obj_fileId h = f) hits)))"
    unfolding refs_inv_def m_def by force
  have "pages r = sort v" "fileId r = f" using fv by (simp_all add: make_reference_def)
  moreover have "distinct v" by (simp add: v)
  then have "sort v = sorted_list_of_set (set v)"
    by (simp only: sorted_list_of_set_sort_remdups distinct_remdups_id)
  moreover have "set v = (\<Union>h \<in> {h \<in> set hits. obj_fileId h = f}. set (obj_pages h))"
    using v by auto
  ultimately show ?thesis by simp
qed

section \<open>The claims about the retrieval result\<close>

text \<open>
  Claim C3.  For every non-empty list of retrieval hits, the references that
  \<^verbatim>\<open>queryRAG\<close> builds have exactly one entry per distinct file identifier (the
  identifiers of the entries are distinct, and they are the identifiers of the hits), the
  entries stand in the order in which their identifiers first occur among the hits, and
  the pages of an entry are the union of the page labels of the hits of that file, without
  duplicates, sorted in the lexicographic order of strings.
\<close>

theorem references_one_per_fileId:
  assumes "hits \<noteq> []"
  shows "distinct (map fileId (references (format_objects hits))) \<and>
     set (map fileId (references (format_objects hits))) = set (map obj_fileId hits) \<and>
     sorted_wrt (\<lambda>a b. first_pos a (map obj_fileId hits) < first_pos b (map obj_fileId hits))
       (map fileId (references (format_objects hits))) \<and>
     (\<forall>r \<in> set (references (format_objects hits)).
        sorted (pages r) \<and> distinct (pages r) \<and>
        set (pages r) = (\<Union>h \<in> {h \<in> set hits. obj_fileId h = fileId r}. set (obj_pages h)))"
proof -
  have "finite (\<Union>h \<in> {h \<in> set hits. obj_fileId h = f}. set (obj_pages h))" for f
    by simp
  then have "\<forall>r \<in> set (references (format_objects hits)).
        sorted (pages r) \<and> distinct (pages r) \<and>
        set (pages r) = (\<Union>h \<in> {h \<in> set hits. obj_fileId h = fileId r}. set (obj_pages h))"
    by (simp add: references_pages)
  then show ?thesis
    by (simp only: references_fileIds distinct_first_seen set_first_seen sorted_first_seen simp_thms)
qed

theorem references_one_per_fileId_witness:
  "tenant_objects ''company_a'' \<noteq> [] \<and>
   map obj_fileId (tenant_objects ''company_a'') = [''tech_doc_001'', ''tech_doc_001''] \<and>
   references (format_objects (tenant_objects ''company_a'')) =
     [\<lparr>fileId = ''tech_doc_001'', pages = [''12'', ''13'', ''14'', ''3'', ''4'']\<rparr>] \<and>
   distinct (map fileId (references (format_objects (tenant_objects ''company_a''))))"
proof -
  have h: "tenant_objects ''company_a'' \<noteq> []" by code_simp
  have ids: "map obj_fileId (tenant_objects ''company_a'') = [''tech_doc_001'', ''tech_doc_001'']"
    by code_simp
  have refs: "references (format_objects (tenant_objects ''company_a'')) =
     [\<lparr>fileId = ''tech_doc_001'', pages = [''12'', ''13'', ''14'', ''3'', ''4'']\<rparr>]"
    by code_simp
  from references_one_per_fileId [OF h] h ids refs show ?thesis by blast
qed

text \<open>
  Claim C4.  For every non-empty list of retrieval hits, the answer text of
  \<^verbatim>\<open>queryRAG\<close> is the text \<open>spec_answer\<close>: each distinct file identifier is labelled
  with an integer counting from 1 in first-seen order; each hit, in retrieval order,
  contributes its label, \<^verbatim>\<open>- Page\<close>, its pages joined by a comma and a space, a colon,
  its answer text and a blank line; the trailing white space of the whole is trimmed.
\<close>

theorem answer_as_specified:
  assumes "hits \<noteq> []"
  shows "answer (format_objects hits) = spec_answer hits"
proof -
  obtain h hs where hits: "hits = h # hs" using assms by (cases hits) auto
  define ids where "ids = map obj_fileId hits"
  define s where "s = concat (map (passage ids) hits)"
  have "combinedAnswer (run_loop hits) = s"
    using run_loop_index_inv [of hits] by (simp add: index_inv_def Let_def s_def ids_def)
  moreover have "s \<noteq> [] \<and> \<not> is_space (hd s)"
    using passage_hd [of ids h] by (simp add: s_def hits)
  ultimately show ?thesis
    using assms by (simp add: format_objects_def Let_def trim_def trimStart_id spec_answer_def s_def ids_def)
qed

theorem answer_as_specified_witness:
  "tenant_objects ''company_b'' \<noteq> [] \<and>
   answer (format_objects (tenant_objects ''company_b'')) =
     ''1- Page 7: Q3 2024 revenue reached $4.2 million, representing a 23% increase year-over-year driven by enterprise subscription growth.'' @
     [newline, newline] @
     ''1- Page 15, 16: Primary costs include cloud infrastructure (35%), personnel (45%), and marketing (20%). R&D investment increased by 15% this quarter.'' \<and>
   spec_answer (tenant_objects ''company_b'') = answer (format_objects (tenant_objects ''company_b''))"
proof -
  have h: "tenant_objects ''company_b'' \<noteq> []" by code_simp
  have a: "answer (format_objects (tenant_objects ''company_b'')) =
     ''1- Page 7: Q3 2024 revenue reached $4.2 million, representing a 23% increase year-over-year driven by enterprise subscription growth.'' @
     [newline, newline] @
     ''1- Page 15, 16: Primary costs include cloud infrastructure (35%), personnel (45%), and marketing (20%). R&D investment increased by 15% this quarter.''"
    by code_simp
  from answer_as_specified [OF h] h a show ?thesis by simp
qed

text \<open>
  Claim C7.  \<^verbatim>\<open>queryRAG\<close> never throws: it returns a result for every input and every
  behaviour of its collaborators.  When the tenant is absent or empty, when the embedding
  throws, when the search and the listing both throw, when the response cannot be read,
  and whenever anything in the \<^verbatim>\<open>try\<close> block throws, the result is the fixed error
  text with no references and no raw data.
\<close>

theorem queryRAG_never_throws:
  "(\<exists>out. queryRAG env input = Inr out) \<and>
   (tenant input = None \<or> tenant input = Some [] \<longrightarrow> queryRAG env input = Inr rag_error_output) \<and>
   (\<forall>e. embedQuery env (query input) = Inl e \<longrightarrow> queryRAG env input = Inr rag_error_output) \<and>
   (\<forall>t v e1 e2. tenant input = Some t \<and> embedQuery env (query input) = Inr v \<and>
      nearVectorSearch env v t (case topK input of None \<Rightarrow> 3 | Some n \<Rightarrow> n) = Inl e1 \<and>
      fetchObjects env t (case topK input of None \<Rightarrow> 3 | Some n \<Rightarrow> n) = Inl e2 \<longrightarrow>
      queryRAG env input = Inr rag_error_output) \<and>
   (\<forall>t v. tenant input = Some t \<and> embedQuery env (query input) = Inr v \<and>
      nearVectorSearch env v t (case topK input of None \<Rightarrow> 3 | Some n \<Rightarrow> n) = Inr NoData \<longrightarrow>
      queryRAG env input = Inr rag_error_output) \<and>
   (\<forall>e. queryRAG_try env input = Inl e \<longrightarrow> queryRAG env input = Inr rag_error_output) \<and>
   answer rag_error_output = ''An error occurred while retrieving information.'' \<and>
   references rag_error_output = [] \<and> rawData rag_error_output = []"
proof -
  have total: "\<exists>out. queryRAG env input = Inr out"
    by (cases "queryRAG_try env input") (simp_all add: queryRAG_def)
  have caught: "queryRAG env input = Inr rag_error_output" if "queryRAG_try env input = Inl e" for e
    using that by (simp add: queryRAG_def)
  have no_tenant: "\<exists>e. queryRAG_try env input = Inl e"
    if "tenant input = None \<or> tenant input = Some []"
    using that by (auto simp: queryRAG_try_def)
  have embed: "\<exists>e'. queryRAG_try env input = Inl e'" if "embedQuery env (query input) = Inl e" for e
    using that by (auto simp: queryRAG_try_def split: option.splits)
  have search: "\<exists>e'. queryRAG_try env input = Inl e'"
    if "tenant input = Some t" "embedQuery env (query input) = Inr v"
      "nearVectorSearch env v t (case topK input of None \<Rightarrow> 3 | Some n \<Rightarrow> n) = Inl e1"
      "fetchObjects env t (case topK input of None \<Rightarrow> 3 | Some n \<Rightarrow> n) = Inl e2" for t v e1 e2
    using that by (auto simp: queryRAG_try_def search_objects_def)
  have format: "\<exists>e'. queryRAG_try env input = Inl e'"
    if "tenant input = Some t" "embedQuery env (query input) = Inr v"
      "nearVectorSearch env v t (case topK input of None \<Rightarrow> 3 | Some n \<Rightarrow> n) = Inr NoData" for t v
    using that by (auto simp: queryRAG_try_def search_objects_def collection_objects_def)
  show ?thesis
    using total caught no_tenant embed search format
    by (simp add: rag_error_output_def) blast
qed

theorem queryRAG_never_throws_witness:
  "tenant \<lparr>query = ''What is the revenue?'', tenant = None, topK = None\<rparr> = None \<and>
   queryRAG seed_store \<lparr>query = ''What is the revenue?'', tenant = None, topK = None\<rparr> = Inr rag_error_output \<and>
   queryRAG_try seed_store \<lparr>query = ''What is the revenue?'', tenant = None, topK = None\<rparr> =
     Inl (Error ''Tenant is required for multi-tenant collection.'') \<and>
   nearVectorSearch seed_store_failing () ''company_a'' 3 = Inl (Error ''search unavailable'') \<and>
   fetchObjects seed_store_failing ''company_a'' 3 = Inl (Error ''store unavailable'') \<and>
   queryRAG seed_store_failing \<lparr>query = ''What is the revenue?'', tenant = Some ''company_a'', topK = None\<rparr> =
     Inr rag_error_output"
proof -
  let ?absent = "\<lparr>query = ''What is the revenue?'', tenant = None, topK = None\<rparr>"
  let ?present = "\<lparr>query = ''What is the revenue?'', tenant = Some ''company_a'', topK = None\<rparr>"
  have t: "tenant ?absent = None" by simp
  have body: "queryRAG_try seed_store ?absent = Inl (Error ''Tenant is required for multi-tenant collection.'')"
    by (simp add: queryRAG_try_def)
  have s: "nearVectorSearch seed_store_failing () ''company_a'' 3 = Inl (Error ''search unavailable'')"
    by (simp add: seed_store_failing_def seed_store_down_def seed_store_def)
  have f: "fetchObjects seed_store_failing ''company_a'' 3 = Inl (Error ''store unavailable'')"
    by (simp add: seed_store_failing_def seed_store_down_def seed_store_def)
  have e: "embedQuery seed_store_failing ''What is the revenue?'' = Inr ()"
    by (simp add: seed_store_failing_def seed_store_down_def seed_store_def)
  have "queryRAG seed_store ?absent = Inr rag_error_output"
    using queryRAG_never_throws [of seed_store ?absent] t by blast
  moreover have "queryRAG seed_store_failing ?present = Inr rag_error_output"
    using queryRAG_never_throws [of seed_store_failing ?present] s f e by simp
  ultimately show ?thesis using t body s f by simp
qed

text \<open>
  Claim C8.  With a tenant and an embedding, when the search finds no hit (the
  similarity search returns none, or it throws and the listing returns none),
  \<^verbatim>\<open>queryRAG\<close> returns the fixed text that nothing relevant was found, with no
  references and no raw data.
\<close>

theorem no_hits_answer:
  assumes "tenant input = Some t" and "t \<noteq> []"
    and "embedQuery env (query input) = Inr v"
    and "k = (case topK input of None \<Rightarrow> 3 | Some n \<Rightarrow> n)"
    and "nearVectorSearch env v t k = Inr (Data (Some [])) \<or>
         nearVectorSearch env v t k = Inr (Data None) \<or>
         (\<exists>e. nearVectorSearch env v t k = Inl e) \<and>
         (fetchObjects env t k = Inr (Some []) \<or> fetchObjects env t k = Inr None)"
  shows "queryRAG env input =
     Inr \<lparr>answer = ''I couldn't find any relevant information in the documents.'',
          references = [], rawData = []\<rparr>"
proof -
  from assms(5) have "\<exists>res. search_objects env v t k = Inr res \<and> collection_objects res = Inr []"
    by (auto simp: search_objects_def collection_objects_def)
  with assms(1-4) show ?thesis
    by (auto simp: queryRAG_def queryRAG_try_def format_objects_def)
qed

theorem no_hits_answer_witness:
  "nearVectorSearch seed_store_empty () ''company_a'' 3 = Inr (Data (Some [])) \<and>
   queryRAG seed_store_empty \<lparr>query = ''What is the revenue?'', tenant = Some ''company_a'', topK = None\<rparr> =
     Inr \<lparr>answer = ''I couldn't find any relevant information in the documents.'',
          references = [], rawData = []\<rparr> \<and>
   fetchObjects seed_store_down ''nobody'' 3 = Inr (Some []) \<and>
   queryRAG seed_store_down \<lparr>query = ''What is the revenue?'', tenant = Some ''nobody'', topK = None\<rparr> =
     Inr \<lparr>answer = ''I couldn't find any relevant information in the documents.'',
          references = [], rawData = []\<rparr>"
proof -
  let ?a = "\<lparr>query = ''What is the revenue?'', tenant = Some ''company_a'', topK = None\<rparr>"
  let ?n = "\<lparr>query = ''What is the revenue?'', tenant = Some ''nobody'', topK = None\<rparr>"
  have s: "nearVectorSearch seed_store_empty () ''company_a'' 3 = Inr (Data (Some []))"
    by (simp add: seed_store_empty_def seed_store_def)
  have e: "embedQuery seed_store_empty ''What is the revenue?'' = Inr ()"
    by (simp add: seed_store_empty_def seed_store_def)
  have d: "nearVectorSearch seed_store_down () ''nobody'' 3 = Inl (Error ''search unavailable'')"
    by (simp add: seed_store_down_def seed_store_def)
  have f: "fetchObjects seed_store_down ''nobody'' 3 = Inr (Some [])"
    by code_simp
  have e': "embedQuery seed_store_down ''What is the revenue?'' = Inr ()"
    by (simp add: seed_store_down_def seed_store_def)
  have "queryRAG seed_store_empty ?a =
     Inr \<lparr>answer = ''I couldn't find any relevant information in the documents.'',
          references = [], rawData = []\<rparr>"
    by (rule no_hits_answer [where t = "''company_a''" and v = "()" and k = 3]) (simp_all add: s e)
  moreover have "queryRAG seed_store_down ?n =
     Inr \<lparr>answer = ''I couldn't find any relevant information in the documents.'',
          references = [], rawData = []\<rparr>"
    by (rule no_hits_answer [where t = "''nobody''" and v = "()" and k = 3]) (simp_all add: d f e')
  ultimately show ?thesis using s f by simp
qed

section \<open>Properties of the orchestrator\<close>

lemma apply_empty_update: "apply_update state empty_update = state"
  by (simp add: apply_update_def empty_update_def)

lemma delegatingNode_sets:
  "set_chartResult (delegatingNode env state) = None \<and>
   set_ragResult (delegatingNode env state) = None \<and>
   add_allData (delegatingNode env state) = None \<and>
   set_finalAnswer (delegatingNode env state) \<noteq> None"
  by (auto simp: delegatingNode_def llm_routing_def keyword_fallback_def empty_update_def Let_def
      split: sum.splits option.splits)

lemma superstep_delegator:
  "superstep env [Delegator] state = Inr (apply_update state (delegatingNode env state))"
  by (simp add: superstep_def)

text \<open>
  Claim C10.  A worker node whose flag is unset does nothing: the chart node, when
  \<^verbatim>\<open>needsChart\<close> is false, and the retrieval node, when \<^verbatim>\<open>needsRAG\<close> is false, return
  the empty update, which sets no result, adds nothing to \<^verbatim>\<open>allData\<close> and leaves the
  state as it was.
\<close>

theorem workers_idle_when_unflagged:
  "(\<not> needsChart state \<longrightarrow> chartToolNode env state = Inr empty_update) \<and>
   (\<not> needsRAG state \<longrightarrow> ragAgentNode env state = Inr empty_update) \<and>
   set_chartResult empty_update = None \<and> set_ragResult empty_update = None \<and>
   add_allData empty_update = None \<and>
   apply_update state empty_update = state"
  by (simp add: chartToolNode_def ragAgentNode_def apply_empty_update) (simp add: empty_update_def)

theorem workers_idle_when_unflagged_witness:
  "\<not> needsChart (initialState ''hello'' ''company_a'') \<and>
   \<not> needsRAG (initialState ''hello'' ''company_a'') \<and>
   chartToolNode chart_failing_env (initialState ''hello'' ''company_a'') = Inr empty_update \<and>
   ragAgentNode rag_failing_env (initialState ''hello'' ''company_a'') = Inr empty_update \<and>
   apply_update (initialState ''hello'' ''company_a'') empty_update = initialState ''hello'' ''company_a''"
proof -
  have c: "\<not> needsChart (initialState ''hello'' ''company_a'')"
    and r: "\<not> needsRAG (initialState ''hello'' ''company_a'')"
    by (simp_all add: initialState_def)
  from workers_idle_when_unflagged [of "initialState ''hello'' ''company_a''" chart_failing_env]
    workers_idle_when_unflagged [of "initialState ''hello'' ''company_a''" rag_failing_env] c r
  show ?thesis by simp
qed

text \<open>
  Claim C9.  When retrieval is needed and the tenant of the state is absent or empty, the
  retrieval node behaves as with the tenant \<^verbatim>\<open>company_a\<close>: it does not fail for a missing
  tenant, it searches in \<^verbatim>\<open>company_a\<close>, and the hits the search returns for that tenant
  are the raw data and the source of the references of its result.
\<close>

theorem absent_tenant_defaults_to_company_a:
  assumes "needsRAG state"
    and "state_tenant state = None \<or> state_tenant state = Some []"
    and "embedQuery (rag_services env) (userQuery state) = Inr v"
    and "nearVectorSearch (rag_services env) v ''company_a'' 3 = Inr (Data (Some hits))"
  shows "ragAgentNode env state = ragAgentNode env (state\<lparr>state_tenant := Some ''company_a''\<rparr>) \<and>
     ragAgentNode env state =
       Inr (empty_update\<lparr>set_ragResult := Some (format_objects hits),
              add_allData := Some [ReferenceData (references (format_objects hits))]\<rparr>) \<and>
     (hits \<noteq> [] \<longrightarrow> rawData (format_objects hits) = hits)"
proof -
  from assms(2) have t: "tenant_or_default (state_tenant state) = ''company_a''"
    by (auto simp: tenant_or_default_def)
  have same: "ragAgentNode env state = ragAgentNode env (state\<lparr>state_tenant := Some ''company_a''\<rparr>)"
    by (simp add: ragAgentNode_def t) (simp add: tenant_or_default_def)
  have "queryRAG (rag_services env) \<lparr>query = userQuery state, tenant = Some ''company_a'', topK = None\<rparr> =
      Inr (format_objects hits)"
    using assms(3,4)
    by (simp add: queryRAG_def queryRAG_try_def search_objects_def collection_objects_def)
  with assms(1) t have "ragAgentNode env state =
       Inr (empty_update\<lparr>set_ragResult := Some (format_objects hits),
              add_allData := Some [ReferenceData (references (format_objects hits))]\<rparr>)"
    by (simp add: ragAgentNode_def)
  moreover have "rawData (format_objects hits) = hits" if "hits \<noteq> []"
    using that by (simp add: format_objects_def Let_def)
  ultimately show ?thesis using same by simp
qed

theorem absent_tenant_defaults_to_company_a_witness:
  "needsRAG ((initialState ''what are the requirements'' [])\<lparr>needsRAG := True\<rparr>) \<and>
   state_tenant ((initialState ''what are the requirements'' [])\<lparr>needsRAG := True\<rparr>) = Some [] \<and>
   nearVectorSearch seed_store () ''company_a'' 3 = Inr (Data (Some (tenant_objects ''company_a''))) \<and>
   tenant_objects ''company_a'' \<noteq> [] \<and>
   ragAgentNode fallback_env ((initialState ''what are the requirements'' [])\<lparr>needsRAG := True\<rparr>) =
     Inr (empty_update\<lparr>set_ragResult := Some (format_objects (tenant_objects ''company_a'')),
            add_allData := Some [ReferenceData (references (format_objects (tenant_objects ''company_a'')))]\<rparr>) \<and>
   rawData (format_objects (tenant_objects ''company_a'')) = tenant_objects ''company_a''"
proof -
  let ?s = "(initialState ''what are the requirements'' [])\<lparr>needsRAG := True\<rparr>"
  have n: "needsRAG ?s" by (simp add: initialState_def)
  have t: "state_tenant ?s = Some []" by (simp add: initialState_def)
  have e: "embedQuery (rag_services fallback_env) (userQuery ?s) = Inr ()"
    by (simp add: fallback_env_def seed_store_def)
  have len: "length (tenant_objects ''company_a'') = 2" by code_simp
  then have s: "nearVectorSearch seed_store () ''company_a'' 3 = Inr (Data (Some (tenant_objects ''company_a'')))"
    by (simp add: seed_store_def)
  then have s': "nearVectorSearch (rag_services fallback_env) () ''company_a'' 3 =
      Inr (Data (Some (tenant_objects ''company_a'')))"
    by (simp add: fallback_env_def)
  have ne: "tenant_objects ''company_a'' \<noteq> []" using len by auto
  from absent_tenant_defaults_to_company_a [OF n _ e s'] t n s ne show ?thesis by blast
qed

text \<open>
  Claim C2.  When the delegator returns a non-empty final answer, the run ends after the
  delegator: no other node runs, and the final state has that answer and the payload
  list, the chart result and the retrieval result of the initial state.
\<close>

theorem direct_answer_ends_run:
  assumes "set_finalAnswer (delegatingNode env state) = Some a" and "a \<noteq> []"
  shows "run_graph env state = Inr ([Delegator], apply_update state (delegatingNode env state)) \<and>
     finalAnswer (apply_update state (delegatingNode env state)) = a \<and>
     allData (apply_update state (delegatingNode env state)) = allData state \<and>
     chartResult (apply_update state (delegatingNode env state)) = chartResult state \<and>
     ragResult (apply_update state (delegatingNode env state)) = ragResult state"
proof -
  define final where "final = apply_update state (delegatingNode env state)"
  have fa: "finalAnswer final = a"
    using assms(1) by (simp add: final_def apply_update_def)
  have frame: "allData final = allData state \<and> chartResult final = chartResult state \<and>
      ragResult final = ragResult state"
    using delegatingNode_sets [of env state] by (simp add: final_def apply_update_def)
  have "route final = []"
    using fa assms(2) by (simp add: route_def)
  then have "run_graph env state = Inr ([Delegator], final)"
    by (simp add: run_graph_def superstep_delegator final_def [symmetric] after_delegator_def)
  with fa frame show ?thesis by (simp add: final_def)
qed

theorem direct_answer_ends_run_witness:
  "set_finalAnswer (delegatingNode direct_env (initialState ''What is the capital of France?'' ''company_a'')) = Some ''Paris'' \<and>
   run_graph direct_env (initialState ''What is the capital of France?'' ''company_a'') =
     Inr ([Delegator], (initialState ''What is the capital of France?'' ''company_a'')
        \<lparr>needsChart := True, needsRAG := True, finalAnswer := ''Paris''\<rparr>) \<and>
   runQuery direct_env ''What is the capital of France?'' None =
     Some \<lparr>response_answer = ''Paris'', response_data = []\<rparr>"
proof -
  let ?s = "initialState ''What is the capital of France?'' ''company_a''"
  have d: "delegatingNode direct_env ?s = empty_update\<lparr>set_needsChart := Some True,
      set_needsRAG := Some True, set_finalAnswer := Some ''Paris''\<rparr>"
    by (simp add: delegatingNode_def llm_routing_def direct_env_def fallback_env_def)
  then have a: "set_finalAnswer (delegatingNode direct_env ?s) = Some ''Paris''" by simp
  have ne: "''Paris'' \<noteq> []" by simp
  have u: "apply_update ?s (delegatingNode direct_env ?s) =
      ?s\<lparr>needsChart := True, needsRAG := True, finalAnswer := ''Paris''\<rparr>"
    by (simp only: d) (simp add: apply_update_def empty_update_def initialState_def)
  from direct_answer_ends_run [OF a ne]
  have r: "run_graph direct_env ?s =
     Inr ([Delegator], ?s\<lparr>needsChart := True, needsRAG := True, finalAnswer := ''Paris''\<rparr>)"
    unfolding u by blast
  then have "runQuery direct_env ''What is the capital of France?'' None =
     Some \<lparr>response_answer = ''Paris'', response_data = []\<rparr>"
    by (simp add: runQuery_def) (simp add: initialState_def)
  with a r show ?thesis by simp
qed



text \<open>
  The sibling path: when the store is down in the same run, the retrieval node records an
  error result, and the chart node and the aggregator run.
\<close>

lemma rag_failure_is_contained:
  "map_sum id fst (run_graph rag_failing_env (initialState both_query ''company_b'')) =
     Inr [Delegator, Chart, Rag, Aggregator] \<and>
   map_sum id (ragResult \<circ> snd) (run_graph rag_failing_env (initialState both_query ''company_b'')) =
     Inr (Some rag_error_output) \<and>
   map_sum id (finalAnswer \<circ> snd) (run_graph rag_failing_env (initialState both_query ''company_b'')) =
     Inr ''Here is what I found.''"
  by code_simp






lemma chart_tool_example:
  "map_sum id (config_labels \<circ> chartConfig)
     (ChartJSTool_invoke draws \<lparr>in_chartType = ''bar'', in_description = both_query,
        in_dataPoints = None\<rparr>) = Inr [''Q1'', ''Q2'', ''Q3'', ''Q4''] \<and>
   map_sum id (map dataset_data \<circ> datasets \<circ> chartConfig)
     (ChartJSTool_invoke draws \<lparr>in_chartType = ''pie'', in_description = ''Sales by region'',
        in_dataPoints = None\<rparr>) = Inr [[11, 48, 85, 22]] \<and>
   ChartJSTool_invoke draws \<lparr>in_chartType = ''radar'', in_description = ''Sales by region'',
        in_dataPoints = None\<rparr> = Inl (Error ''Received tool input did not match expected schema'')"
  by code_simp



section \<open>Properties of the keyword fallback\<close>

lemma matches_class:
  "(s', c') \<in> set (matches (Cls p) s c) \<Longrightarrow> \<exists>x. s = x # s' \<and> p x \<and> c' = c"
  by (cases s) (auto split: if_splits)

lemma star_iter_chars:
  assumes step: "\<And>s c s' c'. (s', c') \<in> set (f s c) \<Longrightarrow> \<exists>x. s = x # s' \<and> p x \<and> c' = c"
  shows "(s', c') \<in> set (star_iter f n s c) \<Longrightarrow> \<exists>w. s = w @ s' \<and> list_all p w \<and> c' = c"
proof (induction n arbitrary: s c)
  case 0
  then show ?case by simp
next
  case (Suc n)
  from Suc.prems consider "(s', c') = (s, c)"
    | s1 c1 where "(s1, c1) \<in> set (f s c)" "(s', c') \<in> set (star_iter f n s1 c1)"
    by (auto split: if_splits)
  then show ?case
  proof cases
    case 1
    then have "s = [] @ s' \<and> list_all p [] \<and> c' = c" by simp
    then show ?thesis by blast
  next
    case 2
    from step [OF 2(1)] obtain x where x: "s = x # s1" "p x" "c1 = c" by blast
    from Suc.IH [OF 2(2)] obtain w where "s1 = w @ s'" "list_all p w" "c' = c1" by blast
    with x have "s = (x # w) @ s' \<and> list_all p (x # w) \<and> c' = c" by simp
    then show ?thesis by blast
  qed
qed

lemma matches_star_class:
  "(s', c') \<in> set (matches (Star (Cls p)) s c) \<Longrightarrow> \<exists>w. s = w @ s' \<and> list_all p w \<and> c' = c"
  unfolding matches.simps(5) by (rule star_iter_chars [OF matches_class])

lemma matches_plus_class:
  assumes "(s', c') \<in> set (matches (Plus (Cls p)) s c)"
  shows "\<exists>w. s = w @ s' \<and> w \<noteq> [] \<and> list_all p w \<and> c' = c"
proof -
  from assms obtain s1 c1 where
    first: "(s1, c1) \<in> set (matches (Cls p) s c)" and
    more: "(s', c') \<in> set (star_iter (matches (Cls p)) (length s1) s1 c1)"
    unfolding matches.simps(6) by (auto simp del: matches.simps)
  from matches_class [OF first] obtain x where x: "s = x # s1" "p x" "c1 = c" by blast
  from star_iter_chars [OF matches_class more] obtain w where
    "s1 = w @ s'" "list_all p w" "c' = c1" by blast
  with x have "s = (x # w) @ s' \<and> x # w \<noteq> [] \<and> list_all p (x # w) \<and> c' = c" by simp
  then show ?thesis by blast
qed

lemma matches_group_plus_class:
  assumes "(s', c') \<in> set (matches (Group n (Plus (Cls p))) s c)"
  shows "\<exists>w. s = w @ s' \<and> w \<noteq> [] \<and> list_all p w \<and> c' = c(n \<mapsto> w)"
proof -
  from assms obtain c'' where m: "(s', c'') \<in> set (matches (Plus (Cls p)) s c)"
    and c': "c' = c''(n \<mapsto> take (length s - length s') s)"
    unfolding matches.simps(7) by (auto simp del: matches.simps)
  from matches_plus_class [OF m] obtain w where "s = w @ s'" "w \<noteq> []" "list_all p w" "c'' = c"
    by blast
  with c' have "s = w @ s' \<and> w \<noteq> [] \<and> list_all p w \<and> c' = c(n \<mapsto> w)" by simp
  then show ?thesis by blast
qed

lemma matches_seq:
  "(s', c') \<in> set (matches (Seq a b) s c) \<longleftrightarrow>
     (\<exists>s1 c1. (s1, c1) \<in> set (matches a s c) \<and> (s', c') \<in> set (matches b s1 c1))"
  by auto

lemma matches_mathPattern:
  assumes "(s', c') \<in> set (matches mathPattern s c)"
  shows "\<exists>d1 w1 op w2 d2. s = d1 @ w1 @ [op] @ w2 @ d2 @ s' \<and> d1 \<noteq> [] \<and> d2 \<noteq> [] \<and>
     list_all is_digit d1 \<and> list_all is_digit d2 \<and> list_all is_space w1 \<and> list_all is_space w2 \<and>
     is_operator op \<and> c' = c(1 \<mapsto> d1, 2 \<mapsto> d2)"
proof -
  from assms obtain s1 c1 s2 c2 s3 c3 s4 c4 where
    g1: "(s1, c1) \<in> set (matches (Group 1 (Plus (Cls is_digit))) s c)" and
    sp1: "(s2, c2) \<in> set (matches (Star (Cls is_space)) s1 c1)" and
    op: "(s3, c3) \<in> set (matches (Cls is_operator) s2 c2)" and
    sp2: "(s4, c4) \<in> set (matches (Star (Cls is_space)) s3 c3)" and
    g2: "(s', c') \<in> set (matches (Group 2 (Plus (Cls is_digit))) s4 c4)"
    unfolding mathPattern_def seqs.simps matches_seq by blast
  from matches_group_plus_class [OF g1] obtain d1 where
    d1: "s = d1 @ s1" "d1 \<noteq> []" "list_all is_digit d1" "c1 = c(1 \<mapsto> d1)" by blast
  from matches_star_class [OF sp1] obtain w1 where
    w1: "s1 = w1 @ s2" "list_all is_space w1" "c2 = c1" by blast
  from matches_class [OF op] obtain x where
    x: "s2 = x # s3" "is_operator x" "c3 = c2" by blast
  from matches_star_class [OF sp2] obtain w2 where
    w2: "s3 = w2 @ s4" "list_all is_space w2" "c4 = c3" by blast
  from matches_group_plus_class [OF g2] obtain d2 where
    d2: "s4 = d2 @ s'" "d2 \<noteq> []" "list_all is_digit d2" "c' = c4(2 \<mapsto> d2)" by blast
  have "s = d1 @ w1 @ [x] @ w2 @ d2 @ s' \<and> d1 \<noteq> [] \<and> d2 \<noteq> [] \<and>
     list_all is_digit d1 \<and> list_all is_digit d2 \<and> list_all is_space w1 \<and> list_all is_space w2 \<and>
     is_operator x \<and> c' = c(1 \<mapsto> d1, 2 \<mapsto> d2)"
    using d1 w1 x w2 d2 by simp
  then show ?thesis by blast
qed

lemma rx_exec_hit:
  "matches r s Map.empty = (s', c') # rest \<Longrightarrow> rx_exec r s = Some (take (length s - length s') s, c')"
  by (subst rx_exec.simps) simp

lemma rx_exec_miss_Nil: "matches r [] Map.empty = [] \<Longrightarrow> rx_exec r [] = None"
  by (subst rx_exec.simps) simp

lemma rx_exec_miss_Cons: "matches r (x # t) Map.empty = [] \<Longrightarrow> rx_exec r (x # t) = rx_exec r t"
  by (subst rx_exec.simps) simp

lemma rx_exec_Some:
  "rx_exec r s = Some (m, c) \<Longrightarrow>
     \<exists>t s'. (s', c) \<in> set (matches r t Map.empty) \<and> m = take (length t - length s') t"
proof (induction s)
  case Nil
  show ?case
  proof (cases "matches r [] Map.empty")
    case Nil
    with Nil.prems show ?thesis by (simp add: rx_exec_miss_Nil)
  next
    case (Cons a as)
    obtain s' c' where a: "a = (s', c')" by (cases a)
    with Nil.prems Cons have "m = take (length ([] :: string) - length s') []" "c = c'"
      by (simp_all add: rx_exec_hit)
    moreover have "(s', c') \<in> set (matches r [] Map.empty)" using Cons a by simp
    ultimately show ?thesis by blast
  qed
next
  case (Cons x t)
  show ?case
  proof (cases "matches r (x # t) Map.empty")
    case Nil
    with Cons.prems have "rx_exec r t = Some (m, c)"
      by (simp add: rx_exec_miss_Cons)
    with Cons.IH show ?thesis by blast
  next
    case (Cons a as)
    obtain s' c' where a: "a = (s', c')" by (cases a)
    with Cons.prems Cons have "m = take (length (x # t) - length s') (x # t)" "c = c'"
      by (simp_all add: rx_exec_hit)
    moreover have "(s', c') \<in> set (matches r (x # t) Map.empty)" using Cons a by simp
    ultimately show ?thesis by blast
  qed
qed

lemma rx_exec_mathPattern:
  assumes "rx_exec mathPattern q = Some (m0, c)"
  shows "\<exists>d1 w1 op w2 d2. m0 = d1 @ w1 @ [op] @ w2 @ d2 \<and> d1 \<noteq> [] \<and> d2 \<noteq> [] \<and>
     list_all is_digit d1 \<and> list_all is_digit d2 \<and> list_all is_space w1 \<and> list_all is_space w2 \<and>
     is_operator op \<and> c 1 = Some d1 \<and> c 2 = Some d2"
proof -
  from rx_exec_Some [OF assms] obtain t s' where
    m: "(s', c) \<in> set (matches mathPattern t Map.empty)" and m0: "m0 = take (length t - length s') t"
    by blast
  from matches_mathPattern [OF m] obtain d1 w1 op w2 d2 where
    t: "t = d1 @ w1 @ [op] @ w2 @ d2 @ s'" and
    rest: "d1 \<noteq> []" "d2 \<noteq> []" "list_all is_digit d1" "list_all is_digit d2"
      "list_all is_space w1" "list_all is_space w2" "is_operator op" and
    c: "c = Map.empty(1 \<mapsto> d1, 2 \<mapsto> d2)"
    by blast
  have "m0 = d1 @ w1 @ [op] @ w2 @ d2"
    using m0 t by simp
  moreover have "c 1 = Some d1 \<and> c 2 = Some d2" using c by simp
  ultimately show ?thesis using rest by blast
qed

lemma rx_exec_class_first:
  "list_all (\<lambda>y. \<not> p y) u \<Longrightarrow> p x \<Longrightarrow> rx_exec (Cls p) (u @ x # v) = Some ([x], Map.empty)"
proof (induction u)
  case Nil
  then show ?case by (simp add: rx_exec_hit)
next
  case (Cons y u)
  then show ?case by (simp add: rx_exec_miss_Cons)
qed

lemma digit_not_operator: "is_digit x \<Longrightarrow> \<not> is_operator x"
  by (auto simp: is_digit_def is_operator_def)

lemma space_not_operator: "is_space x \<Longrightarrow> \<not> is_operator x"
  by (auto simp: is_space_def is_operator_def)

lemma operator_of_match:
  assumes "list_all is_digit d1" "list_all is_space w1" "is_operator op"
  shows "operator_of (d1 @ w1 @ [op] @ w2 @ d2) = Some [op]"
proof -
  have "list_all (\<lambda>y. \<not> is_operator y) (d1 @ w1)"
    using assms(1,2) by (auto simp: list_all_iff digit_not_operator space_not_operator)
  from rx_exec_class_first [OF this assms(3), of "w2 @ d2"] show ?thesis
    by (simp add: operator_of_def)
qed

lemma math_result_arith:
  assumes "list_all is_digit d1" "list_all is_space w1" "is_operator op"
    and "c 1 = Some d1" "c 2 = Some d2"
  shows "math_result (d1 @ w1 @ [op] @ w2 @ d2) c = arith op (parseFloat d1) (parseFloat d2)"
proof -
  have "op = CHR ''+'' \<or> op = CHR ''-'' \<or> op = CHR ''*'' \<or> op = CHR ''/''"
    using assms(3) by (auto simp: is_operator_def)
  then show ?thesis
    using assms(4,5) operator_of_match [OF assms(1-3), of w2 d2]
    by (auto simp: math_result_def arith_def capture_def Let_def)
qed

lemma rx_test_exec: "rx_exec r s = Some x \<Longrightarrow> rx_test r s"
  by (simp add: rx_test_def)

lemma keyword_fallback_math:
  assumes "rx_exec mathPattern q = Some (m0, c)" and "\<not> rx_test chartKeywords q"
  shows "\<exists>d1 w1 op w2 d2. m0 = d1 @ w1 @ [op] @ w2 @ d2 \<and> d1 \<noteq> [] \<and> d2 \<noteq> [] \<and>
     list_all is_digit d1 \<and> list_all is_digit d2 \<and> list_all is_space w1 \<and> list_all is_space w2 \<and>
     is_operator op \<and> c 1 = Some d1 \<and> c 2 = Some d2 \<and> operator_of m0 = Some [op] \<and>
     keyword_fallback q =
       empty_update\<lparr>set_needsChart := Some False, set_needsRAG := Some False,
         set_finalAnswer := Some (''The answer is '' @
           number_toString (arith op (parseFloat d1) (parseFloat d2)) @ ''.'')\<rparr>"
proof -
  from rx_exec_mathPattern [OF assms(1)] obtain d1 w1 op w2 d2 where
    m0: "m0 = d1 @ w1 @ [op] @ w2 @ d2" and
    shape: "d1 \<noteq> []" "d2 \<noteq> []" "list_all is_digit d1" "list_all is_digit d2"
      "list_all is_space w1" "list_all is_space w2" "is_operator op" and
    caps: "c 1 = Some d1" "c 2 = Some d2"
    by blast
  have r: "math_result m0 c = arith op (parseFloat d1) (parseFloat d2)"
    unfolding m0 using shape(3,5,7) caps by (rule math_result_arith)
  have o: "operator_of m0 = Some [op]"
    unfolding m0 using shape(3,5,7) by (rule operator_of_match)
  have "rx_test mathPattern q" using assms(1) by (rule rx_test_exec)
  then have "keyword_fallback q = empty_update\<lparr>set_needsChart := Some False, set_needsRAG := Some False,
         set_finalAnswer := Some (''The answer is '' @
           number_toString (arith op (parseFloat d1) (parseFloat d2)) @ ''.'')\<rparr>"
    using assms r by (simp add: keyword_fallback_def)
  with m0 shape caps o show ?thesis by blast
qed

section \<open>Properties of the numbers\<close>

lemma pow_int_power: "pow_int b e = b ^ nat e"
proof (induction b e rule: pow_int.induct)
  case (1 b e)
  show ?case
  proof (cases "e \<le> 0")
    case True
    then show ?thesis by (simp add: pow_int.simps [of b e])
  next
    case False
    then have "nat e = Suc (nat (e - 1))" by simp
    with 1 False show ?thesis by (simp add: pow_int.simps [of b e])
  qed
qed

lemma digit_count_nonneg: "0 \<le> digit_count b n"
proof (induction b n rule: digit_count.induct)
  case (1 b n)
  then show ?case by (simp add: digit_count.simps [of b n])
qed

lemma digit_count_lower: "0 < n \<Longrightarrow> 2 \<le> b \<Longrightarrow> b ^ nat (digit_count b n - 1) \<le> n"
proof (induction b n rule: digit_count.induct)
  case (1 b n)
  show ?case
  proof (cases "n div b \<le> 0")
    case True
    then have "digit_count b (n div b) = 0" by (simp add: digit_count.simps [of b "n div b"])
    with 1 show ?thesis by (simp add: digit_count.simps [of b n])
  next
    case False
    then have pos: "0 < n div b" by simp
    with 1 have IH: "b ^ nat (digit_count b (n div b) - 1) \<le> n div b" by simp
    have ge: "1 \<le> digit_count b (n div b)"
      using pos 1(3) digit_count_nonneg [of b "n div b div b"]
      by (simp add: digit_count.simps [of b "n div b"])
    have "digit_count b n - 1 = digit_count b (n div b)"
      using 1(2,3) by (simp add: digit_count.simps [of b n])
    moreover have "nat (digit_count b (n div b)) = Suc (nat (digit_count b (n div b) - 1))"
      using ge by simp
    ultimately have "b ^ nat (digit_count b n - 1) = b * b ^ nat (digit_count b (n div b) - 1)"
      by simp
    also have "\<dots> \<le> b * (n div b)"
      using IH 1(3) by (simp add: mult_left_mono)
    also have "\<dots> \<le> n"
    proof -
      have "b * (n div b) + n mod b = n" by simp
      moreover have "0 \<le> n mod b" using 1(3) by simp
      ultimately show ?thesis by linarith
    qed
    finally show ?thesis .
  qed
qed

lemma takeWhile_all: "list_all p d \<Longrightarrow> takeWhile p d = d"
  by (simp add: list_all_iff)

lemma parseFloat_digits:
  "list_all is_digit d \<Longrightarrow> d \<noteq> [] \<Longrightarrow> parseFloat d = round_ratio (digits_value d) 1"
  by (simp add: parseFloat_def takeWhile_all)

lemma round_half_even_positive:
  assumes "0 < den" and "den \<le> num"
  shows "0 < round_half_even num den"
proof -
  have "0 < num div den"
    using assms by (simp add: pos_imp_zdiv_pos_iff)
  then show ?thesis by (simp add: round_half_even_def Let_def)
qed

lemma floor_log2_integer: "0 < n \<Longrightarrow> 2 ^ nat (floor_log 2 n 1) \<le> n"
proof -
  assume n: "0 < n"
  have one: "digit_count 2 1 = 1"
    by (simp add: digit_count.simps [of 2 1] digit_count.simps [of 2 0])
  have lower: "2 ^ nat (digit_count 2 n - 1) \<le> n"
    using n by (rule digit_count_lower) simp
  show ?thesis
  proof (cases "scale_up 2 1 (digit_count 2 n - 1) \<le> scale_up 2 n (- (digit_count 2 n - 1))")
    case True
    then have "floor_log 2 n 1 = digit_count 2 n - 1" by (simp add: floor_log_def one)
    then show ?thesis using lower by simp
  next
    case False
    then have fl: "floor_log 2 n 1 = digit_count 2 n - 2" by (simp add: floor_log_def one)
    have "(2::int) ^ nat (digit_count 2 n - 2) \<le> 2 ^ nat (digit_count 2 n - 1)"
      by (rule power_increasing) simp_all
    from this lower have "2 ^ nat (digit_count 2 n - 2) \<le> n" by (rule order_trans)
    then show ?thesis by (simp only: fl)
  qed
qed

lemma round_pos_integer_positive:
  assumes "0 < n" and "round_pos n 1 = Some (m, e)"
  shows "0 < m"
proof -
  define sh where "sh = ulp_exponent n 1"
  define num where "num = scale_up 2 n (- sh)"
  define den where "den = scale_up 2 1 sh"
  have den_pos: "0 < den" by (simp add: den_def scale_up_def pow_int_power)
  have "den \<le> num"
  proof (cases "sh \<le> 0")
    case True
    then have "den = 1" by (simp add: den_def scale_up_def pow_int_power)
    moreover have "n \<le> num"
      using assms(1) by (simp add: num_def scale_up_def pow_int_power)
    ultimately show ?thesis using assms(1) by simp
  next
    case False
    then have "sh = floor_log 2 n 1 - 52" "0 \<le> floor_log 2 n 1"
      by (auto simp: sh_def ulp_exponent_def max_def split: if_splits)
    then have "(2::int) ^ nat sh \<le> 2 ^ nat (floor_log 2 n 1)" by (intro power_increasing) simp_all
    from this floor_log2_integer [OF assms(1)] have "2 ^ nat sh \<le> n" by (rule order_trans)
    moreover have "num = n" using False by (simp add: num_def scale_up_def pow_int_power)
    moreover have "den = 2 ^ nat sh" by (simp add: den_def scale_up_def pow_int_power)
    ultimately show ?thesis by (simp only:)
  qed
  with den_pos have "0 < round_half_even num den" by (rule round_half_even_positive)
  moreover have "m = round_half_even num den \<or> m = pow_int 2 52"
    using assms(2)
    by (auto simp: round_pos_def Let_def sh_def num_def den_def split: if_splits)
  ultimately show ?thesis by (auto simp: pow_int_power)
qed

lemma parseFloat_positive:
  assumes "list_all is_digit d" "d \<noteq> []" "0 < digits_value d"
  shows "parseFloat d = PosInfinity \<or> (\<exists>m e. parseFloat d = Num m e \<and> 0 < m)"
proof (cases "round_pos (digits_value d) 1")
  case None
  with assms show ?thesis by (simp add: parseFloat_digits round_ratio_def)
next
  case (Some a)
  obtain m e where a: "a = (m, e)" by (cases a)
  with Some assms(3) have "0 < m" by (auto dest: round_pos_integer_positive)
  with Some a assms show ?thesis by (simp add: parseFloat_digits round_ratio_def)
qed

lemma parseFloat_zero:
  "list_all is_digit d \<Longrightarrow> d \<noteq> [] \<Longrightarrow> digits_value d = 0 \<Longrightarrow> parseFloat d = js_zero"
  by (simp add: parseFloat_digits round_ratio_def)

lemma div_by_zero:
  assumes "x = PosInfinity \<or> (\<exists>m e. x = Num m e \<and> 0 < m)"
  shows "js_div x js_zero = PosInfinity"
  using assms by (auto simp: js_zero_def signed_infinity_def)

lemma zero_by_zero: "js_div js_zero js_zero = NaN"
  by (simp add: js_zero_def)

section \<open>The claims about the keyword fallback\<close>

text \<open>
  Claim C5.  On the fallback path, when the query in lower case matches the arithmetic
  pattern and no chart keyword, the matched text is a run of digits, white space, one
  operator, white space and a run of digits, and the delegator returns no chart, no
  retrieval and the answer \<^verbatim>\<open>The answer is {result}.\<close>, where the result is the operator
  applied to the two numbers in binary64 arithmetic, printed as the host language prints
  a number.  The retrieval patterns need no hypothesis: a match of the arithmetic pattern
  switches retrieval off.
\<close>

theorem fallback_arithmetic_answer:
  assumes "llm_routing env state = Inl e"
    and "q = toLowerCase (userQuery state)"
    and "rx_exec mathPattern q = Some (m0, c)"
    and "\<not> rx_test chartKeywords q"
  shows "\<exists>d1 w1 op w2 d2. m0 = d1 @ w1 @ [op] @ w2 @ d2 \<and> d1 \<noteq> [] \<and> d2 \<noteq> [] \<and>
     list_all is_digit d1 \<and> list_all is_digit d2 \<and> list_all is_space w1 \<and> list_all is_space w2 \<and>
     is_operator op \<and>
     delegatingNode env state =
       empty_update\<lparr>set_needsChart := Some False, set_needsRAG := Some False,
         set_finalAnswer := Some (''The answer is '' @
           number_toString (arith op (parseFloat d1) (parseFloat d2)) @ ''.'')\<rparr>"
proof -
  have "delegatingNode env state = keyword_fallback q"
    using assms(1,2) by (simp add: delegatingNode_def)
  with keyword_fallback_math [OF assms(3,4)] show ?thesis by metis
qed

theorem fallback_arithmetic_answer_witness:
  "llm_routing fallback_env (initialState ''What is 15 + 27?'' ''company_a'') = Inl (Error ''quota exceeded'') \<and>
   toLowerCase (userQuery (initialState ''What is 15 + 27?'' ''company_a'')) = ''what is 15 + 27?'' \<and>
   map_option fst (rx_exec mathPattern ''what is 15 + 27?'') = Some ''15 + 27'' \<and>
   \<not> rx_test chartKeywords ''what is 15 + 27?'' \<and>
   (\<exists>d1 w1 op w2 d2. ''15 + 27'' = d1 @ w1 @ [op] @ w2 @ d2 \<and>
      set_finalAnswer (delegatingNode fallback_env (initialState ''What is 15 + 27?'' ''company_a'')) =
        Some (''The answer is '' @ number_toString (arith op (parseFloat d1) (parseFloat d2)) @ ''.'')) \<and>
   set_finalAnswer (delegatingNode fallback_env (initialState ''What is 15 + 27?'' ''company_a'')) =
     Some ''The answer is 42.''"
proof -
  let ?s = "initialState ''What is 15 + 27?'' ''company_a''"
  have r: "llm_routing fallback_env ?s = Inl (Error ''quota exceeded'')"
    by (simp add: llm_routing_def fallback_env_def)
  have q: "toLowerCase (userQuery ?s) = ''what is 15 + 27?''" by code_simp
  have m: "map_option fst (rx_exec mathPattern ''what is 15 + 27?'') = Some ''15 + 27''" by code_simp
  then obtain c where mc: "rx_exec mathPattern ''what is 15 + 27?'' = Some (''15 + 27'', c)"
    by (cases "rx_exec mathPattern ''what is 15 + 27?''") auto
  have ch: "\<not> rx_test chartKeywords ''what is 15 + 27?''" by code_simp
  have k: "set_finalAnswer (keyword_fallback ''what is 15 + 27?'') = Some ''The answer is 42.''"
    by code_simp
  have v: "set_finalAnswer (delegatingNode fallback_env ?s) = Some ''The answer is 42.''"
    using r q k by (simp add: delegatingNode_def)
  from fallback_arithmetic_answer [OF r q [symmetric] mc ch]
  have "\<exists>d1 w1 op w2 d2. ''15 + 27'' = d1 @ w1 @ [op] @ w2 @ d2 \<and>
      set_finalAnswer (delegatingNode fallback_env ?s) =
        Some (''The answer is '' @ number_toString (arith op (parseFloat d1) (parseFloat d2)) @ ''.'')"
    by (elim exE conjE) (intro exI conjI, assumption, simp)
  with r q m ch v show ?thesis by blast
qed

text \<open>The two numbers are the runs of digits around the operator, also inside a decimal fraction.\<close>

lemma decimal_fraction_example:
  "set_finalAnswer (keyword_fallback ''0.1 + 0.2'') = Some ''The answer is 1.''"
  by code_simp

text \<open>
  Claim C6.  On the fallback path, a division by zero is not guarded: when the matched
  operator is \<^verbatim>\<open>/\<close> and the second number is zero, the answer is
  \<^verbatim>\<open>The answer is Infinity.\<close> for a positive first number and \<^verbatim>\<open>The answer is NaN.\<close>
  for a first number that is zero.
\<close>

theorem division_by_zero_unguarded:
  assumes "llm_routing env state = Inl e"
    and "q = toLowerCase (userQuery state)"
    and "rx_exec mathPattern q = Some (m0, c)"
    and "\<not> rx_test chartKeywords q"
    and "operator_of m0 = Some ''/''"
    and "c 1 = Some a" and "c 2 = Some b"
    and "digits_value b = 0"
  shows "(0 < digits_value a \<longrightarrow>
       set_finalAnswer (delegatingNode env state) = Some ''The answer is Infinity.'') \<and>
     (digits_value a = 0 \<longrightarrow>
       set_finalAnswer (delegatingNode env state) = Some ''The answer is NaN.'')"
proof -
  from keyword_fallback_math [OF assms(3,4)] obtain d1 w1 op w2 d2 where
    m0: "m0 = d1 @ w1 @ [op] @ w2 @ d2" and
    shape: "d1 \<noteq> []" "d2 \<noteq> []" "list_all is_digit d1" "list_all is_digit d2" and
    caps: "c 1 = Some d1" "c 2 = Some d2" and
    op: "operator_of m0 = Some [op]" and
    k: "keyword_fallback q =
       empty_update\<lparr>set_needsChart := Some False, set_needsRAG := Some False,
         set_finalAnswer := Some (''The answer is '' @
           number_toString (arith op (parseFloat d1) (parseFloat d2)) @ ''.'')\<rparr>"
    by blast
  have d: "delegatingNode env state = keyword_fallback q"
    using assms(1,2) by (simp add: delegatingNode_def)
  have ab: "d1 = a" "d2 = b" using caps assms(6,7) by simp_all
  have "op = CHR ''/''" using op assms(5) by simp
  then have div: "arith op x y = js_div x y" for x y by (simp add: arith_def)
  have zero: "parseFloat b = js_zero"
    using shape(4,2) assms(8) unfolding ab by (rule parseFloat_zero)
  have inf: "js_div (parseFloat a) js_zero = PosInfinity" if "0 < digits_value a"
  proof (rule div_by_zero)
    show "parseFloat a = PosInfinity \<or> (\<exists>m e. parseFloat a = Num m e \<and> 0 < m)"
      using shape(3,1) that unfolding ab by (rule parseFloat_positive)
  qed
  have nan: "js_div (parseFloat a) js_zero = NaN" if "digits_value a = 0"
  proof -
    have "parseFloat a = js_zero"
      using shape(3,1) that unfolding ab by (rule parseFloat_zero)
    then show ?thesis by (simp add: zero_by_zero)
  qed
  show ?thesis
    using inf nan by (simp add: d k div ab zero)
qed

theorem division_by_zero_unguarded_witness:
  "map_option (\<lambda>(m, c). (m, c 1, c 2)) (rx_exec mathPattern ''7 / 0'') = Some (''7 / 0'', Some ''7'', Some ''0'') \<and>
   operator_of ''7 / 0'' = Some ''/'' \<and> digits_value ''0'' = 0 \<and> 0 < digits_value ''7'' \<and>
   set_finalAnswer (delegatingNode fallback_env (initialState ''7 / 0'' ''company_a'')) =
     Some ''The answer is Infinity.'' \<and>
   map_option (\<lambda>(m, c). (m, c 1, c 2)) (rx_exec mathPattern ''0 / 0'') = Some (''0 / 0'', Some ''0'', Some ''0'') \<and>
   operator_of ''0 / 0'' = Some ''/'' \<and>
   set_finalAnswer (delegatingNode fallback_env (initialState ''0 / 0'' ''company_a'')) =
     Some ''The answer is NaN.''"
proof -
  have r: "llm_routing fallback_env (initialState x ''company_a'') = Inl (Error ''quota exceeded'')" for x
    by (simp add: llm_routing_def fallback_env_def)
  have q7: "''7 / 0'' = toLowerCase (userQuery (initialState ''7 / 0'' ''company_a''))" by code_simp
  have q0: "''0 / 0'' = toLowerCase (userQuery (initialState ''0 / 0'' ''company_a''))" by code_simp
  have m7: "map_option (\<lambda>(m, c). (m, c 1, c 2)) (rx_exec mathPattern ''7 / 0'') =
      Some (''7 / 0'', Some ''7'', Some ''0'')" by code_simp
  then obtain c7 where c7: "rx_exec mathPattern ''7 / 0'' = Some (''7 / 0'', c7)"
    "c7 1 = Some ''7''" "c7 2 = Some ''0''"
    by (cases "rx_exec mathPattern ''7 / 0''") auto
  have m0: "map_option (\<lambda>(m, c). (m, c 1, c 2)) (rx_exec mathPattern ''0 / 0'') =
      Some (''0 / 0'', Some ''0'', Some ''0'')" by code_simp
  then obtain c0 where c0: "rx_exec mathPattern ''0 / 0'' = Some (''0 / 0'', c0)"
    "c0 1 = Some ''0''" "c0 2 = Some ''0''"
    by (cases "rx_exec mathPattern ''0 / 0''") auto
  have ch7: "\<not> rx_test chartKeywords ''7 / 0''" by code_simp
  have ch0: "\<not> rx_test chartKeywords ''0 / 0''" by code_simp
  have o7: "operator_of ''7 / 0'' = Some ''/''" by code_simp
  have o0: "operator_of ''0 / 0'' = Some ''/''" by code_simp
  have z: "digits_value ''0'' = 0" by code_simp
  have p: "0 < digits_value ''7''" by code_simp
  from division_by_zero_unguarded [OF r q7 c7(1) ch7 o7 c7(2,3) z] p
  have a7: "set_finalAnswer (delegatingNode fallback_env (initialState ''7 / 0'' ''company_a'')) =
     Some ''The answer is Infinity.''" by blast
  from division_by_zero_unguarded [OF r q0 c0(1) ch0 o0 c0(2,3) z] z
  have a0: "set_finalAnswer (delegatingNode fallback_env (initialState ''0 / 0'' ''company_a'')) =
     Some ''The answer is NaN.''" by blast
  from m7 o7 z p a7 m0 o0 a0 show ?thesis by blast
qed

end
